theory Spec2Isabelle
  imports Main
begin

section \<open>The data of an upgrade (src/types.ts)\<close>

text \<open>
  \<open>FileDiff\<close>: a project-relative path, one of four statuses and one of two categories.
\<close>

datatype status = Added | Modified | Unchanged | Removed

datatype category = Safe | Protected

record FileDiff =
  path :: string
  status :: status
  category :: category

text \<open>
  \<open>VelocityConfig\<close>, \<open>UpgradeManifest\<close> and \<open>MigrationStep\<close>. Both the configuration
  and the manifest have a field \<open>version\<close>; the plain name is the manifest's, the
  configuration's is written \<open>VelocityConfig.version\<close>. A \<open>Record<string, string>\<close> is the list of
  its entries in the order \<open>Object.entries\<close> gives them; an optional field is an
  \<open>option\<close>.
\<close>

record features =
  demo :: bool
  i18n :: bool
  components :: string

record VelocityConfig =
  version :: string
  createdAt :: string
  updatedAt :: string
  features :: features

record file_lists =
  safe :: "string list"
  protected :: "string list"

record dependency_changes =
  update :: "(string \<times> string) list"
  remove :: "string list"
  add :: "(string \<times> string) list"

record MigrationStep =
  title :: string
  description :: string
  pattern :: "string option"
  searchPaths :: "string list option"

record UpgradeManifest =
  version :: string
  minCliVersion :: string
  files :: file_lists
  dependencies :: dependency_changes
  migrations :: "MigrationStep list"

section \<open>The tally of a diff list (src/utils/diff.ts, summarizeDiffs)\<close>

text \<open>
  The counters of \<open>summarizeDiffs\<close> are JavaScript numbers that only ever count the
  elements of one array, so they stay far below \<open>2^53\<close> and are modelled as natural
  numbers.
\<close>

record summary =
  added :: nat
  modified :: nat
  unchanged :: nat

text \<open>
  The loop of \<open>summarizeDiffs\<close>: a \<open>switch\<close> on the status with three cases and no
  default, so a \<open>removed\<close> entry leaves the three counters as they are.
\<close>

fun summarize_loop :: "FileDiff list \<Rightarrow> summary \<Rightarrow> summary" where
  "summarize_loop [] s = s"
| "summarize_loop (d # ds) s =
     summarize_loop ds
       (case status d of
          Added \<Rightarrow> s\<lparr>added := added s + 1\<rparr>
        | Modified \<Rightarrow> s\<lparr>modified := modified s + 1\<rparr>
        | Unchanged \<Rightarrow> s\<lparr>unchanged := unchanged s + 1\<rparr>
        | Removed \<Rightarrow> s)"

definition summarizeDiffs :: "FileDiff list \<Rightarrow> summary" where
  "summarizeDiffs diffs = summarize_loop diffs \<lparr>added = 0, modified = 0, unchanged = 0\<rparr>"

definition count_status :: "status \<Rightarrow> FileDiff list \<Rightarrow> nat" where
  "count_status st diffs = length (filter (\<lambda>d. status d = st) diffs)"

section \<open>Version comparison (src/upgrade.ts, isVersionLessThan)\<close>

text \<open>
  \<open>parseInt(p, 10)\<close>: leading white space is skipped, one sign is accepted, then the
  longest run of decimal digits is read; with no digit the result is \<open>NaN\<close>
  (\<open>None\<close> here). Strings are byte strings, so the white space recognised is the ASCII
  part of ECMAScript's; the value is an exact integer (JavaScript rounds beyond \<open>2^53\<close>).
\<close>

definition is_ws :: "char \<Rightarrow> bool" where
  "is_ws c = (c \<in> set [CHR '' '', CHR 0x09, CHR 0x0A, CHR 0x0B, CHR 0x0C, CHR 0x0D])"

definition is_digit :: "char \<Rightarrow> bool" where
  "is_digit c = (c \<in> set ''0123456789'')"

definition digit_val :: "char \<Rightarrow> int" where
  "digit_val c = int (of_char c) - 48"

definition digits_val :: "string \<Rightarrow> int" where
  "digits_val ds = foldl (\<lambda>acc c. 10 * acc + digit_val c) 0 ds"

definition parseInt10 :: "string \<Rightarrow> int option" where
  "parseInt10 s =
     (let t = dropWhile is_ws s;
          neg = (case t of [] \<Rightarrow> False | c # _ \<Rightarrow> c = CHR ''-'');
          u = (case t of [] \<Rightarrow> [] | c # r \<Rightarrow> if c = CHR ''-'' \<or> c = CHR ''+'' then r else t);
          ds = takeWhile is_digit u
      in if ds = [] then None
         else Some (if neg then - digits_val ds else digits_val ds))"

text \<open>
  \<open>String.prototype.split\<close> with a one-character class: every separator ends a piece, so
  a string with \<open>n\<close> separators gives \<open>n + 1\<close> pieces, some of them possibly empty.
\<close>

fun split_on :: "(char \<Rightarrow> bool) \<Rightarrow> string \<Rightarrow> string list" where
  "split_on sep [] = [[]]"
| "split_on sep (c # cs) =
     (if sep c then [] # split_on sep cs
      else (case split_on sep cs of
              [] \<Rightarrow> [[c]]
            | w # ws \<Rightarrow> (c # w) # ws))"

text \<open>\<open>v.replace(/^v/, '')\<close>: one leading lower-case \<open>v\<close> is dropped.\<close>

fun strip_v :: "string \<Rightarrow> string" where
  "strip_v [] = []"
| "strip_v (c # cs) = (if c = CHR ''v'' then cs else c # cs)"

definition parse :: "string \<Rightarrow> int list" where
  "parse v =
     map (\<lambda>p. case parseInt10 p of None \<Rightarrow> 0 | Some n \<Rightarrow> n)
         (split_on (\<lambda>c. c = CHR ''-'' \<or> c = CHR ''.'') (strip_v v))"

text \<open>\<open>a[i] ?? 0\<close>: reading past the end of the array gives \<open>undefined\<close>, replaced by 0.\<close>

definition nth_or0 :: "int list \<Rightarrow> nat \<Rightarrow> int" where
  "nth_or0 xs i = (if i < length xs then xs ! i else 0)"

function less_loop :: "int list \<Rightarrow> int list \<Rightarrow> nat \<Rightarrow> nat \<Rightarrow> bool" where
  "less_loop a b len i =
     (if i < len then
        (let av = nth_or0 a i; bv = nth_or0 b i
         in if av < bv then True
            else if av > bv then False
            else less_loop a b len (i + 1))
      else False)"
  by pat_completeness auto
termination
  by (relation "measure (\<lambda>(a, b, len, i). len - i)") auto

declare less_loop.simps [simp del]

definition isVersionLessThan :: "string \<Rightarrow> string \<Rightarrow> bool" where
  "isVersionLessThan current required =
     (let a = parse current; b = parse required;
          len = max (length a) (length b)
      in less_loop a b len 0)"


section \<open>Paths and the file system (node:path and node:fs, POSIX)\<close>

text \<open>
  The code reaches the disk through \<open>join\<close> and \<open>relative\<close> of node:path and through
  \<open>existsSync\<close>, \<open>statSync\<close>, \<open>readdirSync\<close> and \<open>readFileSync\<close> of node:fs. They are
  modelled for POSIX paths. A path that \<open>join\<close> has produced is kept in parsed form: its
  normalised segments from the root of the file system and whether the text ended with a
  separator (\<open>normalize\<close> keeps a trailing separator). The two roots handed to the diff are
  such absolute paths.
\<close>

record fpath =
  segs :: "string list"
  trail :: bool

text \<open>
  \<open>normalize\<close> on an absolute path: empty segments and \<open>.\<close> are dropped, \<open>..\<close> removes the
  segment before it and is itself dropped at the root.
\<close>

fun norm_onto :: "string list \<Rightarrow> string list \<Rightarrow> string list" where
  "norm_onto st [] = st"
| "norm_onto st (s # ss) =
     (if s = [] \<or> s = ''.'' then norm_onto st ss
      else if s = ''..'' then norm_onto (butlast st) ss
      else norm_onto (st @ [s]) ss)"

definition ends_with_slash :: "string \<Rightarrow> bool" where
  "ends_with_slash p = (p \<noteq> [] \<and> last p = CHR ''/'')"

definition join :: "fpath \<Rightarrow> string \<Rightarrow> fpath" where
  "join d p =
     \<lparr>segs = norm_onto (segs d) (split_on (\<lambda>c. c = CHR ''/'') p),
      trail = (if p = [] then trail d else ends_with_slash p)\<rparr>"

text \<open>
  \<open>relative(from, to)\<close>: the common leading segments are dropped, every segment left of
  \<open>from\<close> becomes \<open>..\<close>, and the result is written with \<open>/\<close> between the segments.
\<close>

fun strip_common :: "string list \<Rightarrow> string list \<Rightarrow> string list \<times> string list" where
  "strip_common (x # xs) (y # ys) =
     (if x = y then strip_common xs ys else (x # xs, y # ys))"
| "strip_common xs ys = (xs, ys)"

fun unsplit :: "string list \<Rightarrow> string" where
  "unsplit [] = []"
| "unsplit [s] = s"
| "unsplit (s # ss) = s @ ''/'' @ unsplit ss"

definition relative :: "fpath \<Rightarrow> fpath \<Rightarrow> string" where
  "relative from to =
     (case strip_common (segs from) (segs to) of
        (f, t) \<Rightarrow> unsplit (replicate (length f) ''..'' @ t))"

text \<open>
  The disk is a tree: a readable file with its bytes (\<open>char\<close> is a byte), a file that
  cannot be read, or a directory with its entries in the order \<open>readdirSync\<close> lists
  them. Symbolic links and directories that cannot be listed are outside the model.
\<close>

datatype node = File string | Locked | Dir "(string \<times> node) list"

datatype error = ENOENT | ENOTDIR | EISDIR | EACCES | SyntaxError

fun is_dir :: "node \<Rightarrow> bool" where
  "is_dir (Dir es) = True"
| "is_dir n = False"

fun resolve :: "node \<Rightarrow> string list \<Rightarrow> node option" where
  "resolve n [] = Some n"
| "resolve (Dir es) (s # ss) =
     (case map_of es s of None \<Rightarrow> None | Some c \<Rightarrow> resolve c ss)"
| "resolve n (s # ss) = None"

text \<open>A path written with a trailing separator exists only if it is a directory.\<close>

definition existsSync :: "node \<Rightarrow> fpath \<Rightarrow> bool" where
  "existsSync fs p =
     (case resolve fs (segs p) of
        None \<Rightarrow> False
      | Some n \<Rightarrow> trail p \<longrightarrow> is_dir n)"

definition isDirectory :: "node \<Rightarrow> fpath \<Rightarrow> bool" where
  "isDirectory fs p = (case resolve fs (segs p) of Some (Dir es) \<Rightarrow> True | _ \<Rightarrow> False)"

definition readFileSync :: "node \<Rightarrow> fpath \<Rightarrow> error + string" where
  "readFileSync fs p =
     (case resolve fs (segs p) of
        None \<Rightarrow> Inl ENOENT
      | Some (File c) \<Rightarrow> if trail p then Inl ENOTDIR else Inr c
      | Some Locked \<Rightarrow> if trail p then Inl ENOTDIR else Inl EACCES
      | Some (Dir es) \<Rightarrow> Inl EISDIR)"

definition readdirSync :: "node \<Rightarrow> fpath \<Rightarrow> error + (string \<times> node) list" where
  "readdirSync fs p =
     (case resolve fs (segs p) of
        None \<Rightarrow> Inl ENOENT
      | Some (Dir es) \<Rightarrow> Inr es
      | Some n \<Rightarrow> Inl ENOTDIR)"

section \<open>Path expansion and the diff (src/utils/diff.ts)\<close>

text \<open>
  The loop of \<open>walkDir\<close> over the entries of a directory. For an entry that is a directory
  the source calls \<open>walkDir\<close> on \<open>join(dir, entry.name)\<close>, which exists and lists the
  entries of that child; the recursion here descends into the child directly.
\<close>

fun walk_entries :: "(string \<times> node) list \<Rightarrow> fpath \<Rightarrow> fpath \<Rightarrow> string list" where
  "walk_entries [] dir baseDir = []"
| "walk_entries ((name, Dir sub) # es) dir baseDir =
     walk_entries sub (join dir name) baseDir @ walk_entries es dir baseDir"
| "walk_entries ((name, n) # es) dir baseDir =
     relative baseDir (join dir name) # walk_entries es dir baseDir"

definition walkDir :: "node \<Rightarrow> fpath \<Rightarrow> fpath \<Rightarrow> error + string list" where
  "walkDir fs dir baseDir =
     (if \<not> existsSync fs dir then Inr []
      else (case readdirSync fs dir of
              Inl e \<Rightarrow> Inl e
            | Inr entries \<Rightarrow> Inr (walk_entries entries dir baseDir)))"

text \<open>
  \<open>[...new Set(files)]\<close>: the elements in the order of their first occurrence.
\<close>

definition set_order :: "'a list \<Rightarrow> 'a list" where
  "set_order xs = rev (remdups (rev xs))"

fun expand_loop :: "node \<Rightarrow> string list \<Rightarrow> fpath \<Rightarrow> string list \<Rightarrow> error + string list" where
  "expand_loop fs [] freshDir collected = Inr collected"
| "expand_loop fs (p # ps) freshDir collected =
     (let fullPath = join freshDir p
      in if ends_with_slash p \<or> (existsSync fs fullPath \<and> isDirectory fs fullPath)
         then (case walkDir fs fullPath freshDir of
                 Inl e \<Rightarrow> Inl e
               | Inr found \<Rightarrow> expand_loop fs ps freshDir (collected @ found))
         else expand_loop fs ps freshDir (collected @ [p]))"

definition expandPaths :: "node \<Rightarrow> string list \<Rightarrow> fpath \<Rightarrow> error + string list" where
  "expandPaths fs paths freshDir =
     (case expand_loop fs paths freshDir [] of
        Inl e \<Rightarrow> Inl e
      | Inr collected \<Rightarrow> Inr (set_order collected))"

fun diff_loop :: "node \<Rightarrow> fpath \<Rightarrow> fpath \<Rightarrow> string list \<Rightarrow> FileDiff list \<Rightarrow> error + FileDiff list" where
  "diff_loop fs currentDir freshDir [] diffs = Inr diffs"
| "diff_loop fs currentDir freshDir (filePath # rest) diffs =
     (let currentPath = join currentDir filePath;
          freshPath = join freshDir filePath
      in if \<not> existsSync fs freshPath then diff_loop fs currentDir freshDir rest diffs
         else if \<not> existsSync fs currentPath
         then diff_loop fs currentDir freshDir rest
                (diffs @ [\<lparr>path = filePath, status = Added, category = Safe\<rparr>])
         else (case readFileSync fs currentPath of
                 Inl e \<Rightarrow> Inl e
               | Inr currentContent \<Rightarrow>
                   (case readFileSync fs freshPath of
                      Inl e \<Rightarrow> Inl e
                    | Inr freshContent \<Rightarrow>
                        if currentContent = freshContent
                        then diff_loop fs currentDir freshDir rest
                               (diffs @ [\<lparr>path = filePath, status = Unchanged, category = Safe\<rparr>])
                        else diff_loop fs currentDir freshDir rest
                               (diffs @ [\<lparr>path = filePath, status = Modified, category = Safe\<rparr>]))))"

definition diffProjects :: "node \<Rightarrow> fpath \<Rightarrow> fpath \<Rightarrow> UpgradeManifest \<Rightarrow> error + FileDiff list" where
  "diffProjects fs currentDir freshDir manifest =
     (case expandPaths fs (safe (files manifest)) freshDir of
        Inl e \<Rightarrow> Inl e
      | Inr safeFiles \<Rightarrow> diff_loop fs currentDir freshDir safeFiles [])"

text \<open>
  What one declared entry adds to the list in \<open>expandPaths\<close> (the body of its loop).
\<close>

definition expand_one :: "node \<Rightarrow> fpath \<Rightarrow> string \<Rightarrow> string list" where
  "expand_one fs freshDir p =
     (if ends_with_slash p \<or> (existsSync fs (join freshDir p) \<and> isDirectory fs (join freshDir p))
      then (case walkDir fs (join freshDir p) freshDir of Inl e \<Rightarrow> [] | Inr found \<Rightarrow> found)
      else [p])"

text \<open>
  The classification as the specification words it: a path missing under the fresh root is
  skipped; one missing under the current root is added; otherwise the two reads are
  compared. \<open>readable\<close> says that \<open>readFileSync\<close> returns the bytes of a file.
\<close>

definition readable :: "node \<Rightarrow> fpath \<Rightarrow> bool" where
  "readable fs p = (case readFileSync fs p of Inl e \<Rightarrow> False | Inr c \<Rightarrow> True)"

definition classify_spec :: "node \<Rightarrow> fpath \<Rightarrow> fpath \<Rightarrow> string \<Rightarrow> FileDiff option" where
  "classify_spec fs currentDir freshDir p =
     (if \<not> existsSync fs (join freshDir p) then None
      else if \<not> existsSync fs (join currentDir p)
      then Some \<lparr>path = p, status = Added, category = Safe\<rparr>
      else if readFileSync fs (join currentDir p) = readFileSync fs (join freshDir p)
      then Some \<lparr>path = p, status = Unchanged, category = Safe\<rparr>
      else Some \<lparr>path = p, status = Modified, category = Safe\<rparr>)"

subsection \<open>Concrete trees\<close>

text \<open>
  The scenario of the specification: under \<open>src/lib\<close> the file \<open>a.ts\<close> is the same in
  project and template, \<open>b.ts\<close> differs and \<open>c.ts\<close> is new in the template.
\<close>

definition scenario_fs :: node where
  "scenario_fs =
     Dir [(''project'', Dir [(''src'', Dir [(''lib'', Dir
             [(''a.ts'', File ''a1''), (''b.ts'', File ''b1'')])])]),
          (''tmp'', Dir [(''velocity-upgrade'', Dir [(''src'', Dir [(''lib'', Dir
             [(''a.ts'', File ''a1''), (''b.ts'', File ''b2''), (''c.ts'', File ''c3'')])])])])]"

definition scenario_current :: fpath where
  "scenario_current = \<lparr>segs = [''project''], trail = False\<rparr>"

definition scenario_fresh :: fpath where
  "scenario_fresh = \<lparr>segs = [''tmp'', ''velocity-upgrade''], trail = False\<rparr>"

definition missing_root :: fpath where
  "missing_root = \<lparr>segs = [''tmp'', ''gone''], trail = False\<rparr>"

definition scenario_manifest :: UpgradeManifest where
  "scenario_manifest =
     \<lparr>version = ''2.0.0'', minCliVersion = ''1.0.0'',
      files = \<lparr>safe = [''src/lib/''], protected = []\<rparr>,
      dependencies = \<lparr>update = [], remove = [], add = []\<rparr>,
      migrations = []\<rparr>"

text \<open>
  A project in which \<open>src/lib/util\<close> is a directory while the template ships a file of
  that name.
\<close>

definition clash_fs :: node where
  "clash_fs =
     Dir [(''project'', Dir [(''src'', Dir [(''lib'', Dir [(''util'', Dir [])])])]),
          (''tmp'', Dir [(''velocity-upgrade'', Dir [(''src'', Dir [(''lib'', Dir
             [(''util'', File ''u1'')])])])])]"


section \<open>The dependency merge (src/upgrade.ts, mergePackageJsonDeps)\<close>

text \<open>
  What \<open>JSON.parse\<close> returns. An object is the list of its members in the order in which
  JavaScript enumerates them (insertion order; names that look like array indices, which
  JavaScript would move to the front, are not modelled), with one member for each name.
\<close>

datatype json =
  JNull | JBool bool | JNum int | JStr string | JArr "json list" | JObj "(string \<times> json) list"

text \<open>
  \<open>o[k] = v\<close> keeps the place of a member that exists and appends a new one;
  \<open>delete o[k]\<close> drops the member.
\<close>

fun obj_set :: "('k \<times> 'v) list \<Rightarrow> 'k \<Rightarrow> 'v \<Rightarrow> ('k \<times> 'v) list" where
  "obj_set [] k v = [(k, v)]"
| "obj_set ((k', v') # kvs) k v =
     (if k' = k then (k, v) # kvs else (k', v') # obj_set kvs k v)"

definition obj_delete :: "('k \<times> 'v) list \<Rightarrow> 'k \<Rightarrow> ('k \<times> 'v) list" where
  "obj_delete kvs k = filter (\<lambda>m. fst m \<noteq> k) kvs"

text \<open>
  The package descriptor is the parsed object. Its members \<open>dependencies\<close> and
  \<open>devDependencies\<close> are, as in every package descriptor, absent, null or an object:
  \<open>dep_section\<close> gives the object or \<open>None\<close>. Package names that are also names of
  properties every JavaScript object inherits (\<open>constructor\<close>, \<open>toString\<close>, ...) are not
  modelled.
\<close>

definition dep_section :: "(string \<times> json) list \<Rightarrow> string \<Rightarrow> (string \<times> json) list option" where
  "dep_section pkg sec = (case map_of pkg sec of Some (JObj kvs) \<Rightarrow> Some kvs | _ \<Rightarrow> None)"

text \<open>\<open>pkg.sec?.[name] !== undefined\<close>\<close>

definition declares :: "(string \<times> json) list \<Rightarrow> string \<Rightarrow> string \<Rightarrow> bool" where
  "declares pkg sec name =
     (case dep_section pkg sec of None \<Rightarrow> False | Some kvs \<Rightarrow> map_of kvs name \<noteq> None)"

text \<open>\<open>if (!pkg.sec) pkg.sec = {}\<close>\<close>

definition ensure :: "(string \<times> json) list \<Rightarrow> string \<Rightarrow> (string \<times> json) list" where
  "ensure pkg sec = (case dep_section pkg sec of None \<Rightarrow> obj_set pkg sec (JObj []) | Some kvs \<Rightarrow> pkg)"

text \<open>
  \<open>pkg.sec[name] = version\<close> and \<open>delete pkg.sec[name]\<close>. The source executes them only
  where the section is an object (after \<open>declares\<close> or \<open>ensure\<close>).
\<close>

definition assign :: "(string \<times> json) list \<Rightarrow> string \<Rightarrow> string \<Rightarrow> string \<Rightarrow> (string \<times> json) list" where
  "assign pkg sec name v =
     (case dep_section pkg sec of
        None \<Rightarrow> pkg
      | Some kvs \<Rightarrow> obj_set pkg sec (JObj (obj_set kvs name (JStr v))))"

definition unassign :: "(string \<times> json) list \<Rightarrow> string \<Rightarrow> string \<Rightarrow> (string \<times> json) list" where
  "unassign pkg sec name =
     (case dep_section pkg sec of
        None \<Rightarrow> pkg
      | Some kvs \<Rightarrow> obj_set pkg sec (JObj (obj_delete kvs name)))"

text \<open>The bodies of the three loops, in the order of the source.\<close>

definition update_step :: "string \<times> string \<Rightarrow> (string \<times> json) list \<Rightarrow> (string \<times> json) list" where
  "update_step e pkg =
     (if declares pkg ''dependencies'' (fst e) then assign pkg ''dependencies'' (fst e) (snd e)
      else if declares pkg ''devDependencies'' (fst e)
      then assign pkg ''devDependencies'' (fst e) (snd e)
      else assign (ensure pkg ''dependencies'') ''dependencies'' (fst e) (snd e))"

definition remove_step :: "string \<Rightarrow> (string \<times> json) list \<Rightarrow> (string \<times> json) list" where
  "remove_step name pkg =
     (let pkg1 = (if declares pkg ''dependencies'' name
                  then unassign pkg ''dependencies'' name else pkg)
      in if declares pkg1 ''devDependencies'' name
         then unassign pkg1 ''devDependencies'' name else pkg1)"

definition add_step :: "string \<times> string \<Rightarrow> (string \<times> json) list \<Rightarrow> (string \<times> json) list" where
  "add_step e pkg = assign (ensure pkg ''dependencies'') ''dependencies'' (fst e) (snd e)"

definition merge_deps :: "(string \<times> json) list \<Rightarrow> dependency_changes \<Rightarrow> (string \<times> json) list" where
  "merge_deps pkg d =
     fold add_step (add d) (fold remove_step (remove d) (fold update_step (update d) pkg))"



section \<open>Writing to the disk (node:fs)\<close>

text \<open>
  \<open>writeFileSync\<close>, \<open>mkdirSync\<close> with \<open>recursive\<close>, \<open>copyFileSync\<close> and \<open>rmSync\<close> on the
  tree. A new entry is listed last in its directory.
\<close>

fun write_at :: "node \<Rightarrow> string list \<Rightarrow> node \<Rightarrow> error + node" where
  "write_at n [] new = Inr new"
| "write_at (Dir es) (s # ss) new =
     (case map_of es s of
        None \<Rightarrow> if ss = [] then Inr (Dir (obj_set es s new)) else Inl ENOENT
      | Some c \<Rightarrow>
          (case write_at c ss new of
             Inl e \<Rightarrow> Inl e
           | Inr c' \<Rightarrow> Inr (Dir (obj_set es s c'))))"
| "write_at n (s # ss) new = Inl ENOTDIR"

definition writeFileSync :: "node \<Rightarrow> fpath \<Rightarrow> string \<Rightarrow> error + node" where
  "writeFileSync fs p content =
     (case resolve fs (segs p) of
        Some (Dir es) \<Rightarrow> Inl EISDIR
      | Some Locked \<Rightarrow> Inl EACCES
      | _ \<Rightarrow> if trail p then Inl EISDIR else write_at fs (segs p) (File content))"

fun mkdir_p :: "node \<Rightarrow> string list \<Rightarrow> error + node" where
  "mkdir_p (Dir es) [] = Inr (Dir es)"
| "mkdir_p (Dir es) (s # ss) =
     (case mkdir_p (case map_of es s of None \<Rightarrow> Dir [] | Some c \<Rightarrow> c) ss of
        Inl e \<Rightarrow> Inl e
      | Inr c' \<Rightarrow> Inr (Dir (obj_set es s c')))"
| "mkdir_p n ss = Inl ENOTDIR"

definition mkdirSync :: "node \<Rightarrow> fpath \<Rightarrow> error + node" where
  "mkdirSync fs p = mkdir_p fs (segs p)"

definition copyFileSync :: "node \<Rightarrow> fpath \<Rightarrow> fpath \<Rightarrow> error + node" where
  "copyFileSync fs src dest =
     (case readFileSync fs src of
        Inl e \<Rightarrow> Inl e
      | Inr content \<Rightarrow> writeFileSync fs dest content)"

text \<open>\<open>rmSync(p, {recursive: true, force: true})\<close> where it succeeds.\<close>

fun remove_at :: "node \<Rightarrow> string list \<Rightarrow> node" where
  "remove_at (Dir es) [s] = Dir (obj_delete es s)"
| "remove_at (Dir es) (s # ss) =
     (case map_of es s of
        None \<Rightarrow> Dir es
      | Some c \<Rightarrow> Dir (obj_set es s (remove_at c ss)))"
| "remove_at n ss = n"

text \<open>\<open>dirname\<close> of a path that \<open>join\<close> has produced.\<close>

definition dirname :: "fpath \<Rightarrow> fpath" where
  "dirname p = \<lparr>segs = butlast (segs p), trail = False\<rparr>"

section \<open>Reading and writing JSON documents\<close>

text \<open>
  \<open>JSON.parse\<close> and \<open>JSON.stringify\<close> are parameters of the model, one pair for each
  type of document the code reads; a decoder gives \<open>None\<close> where \<open>JSON.parse\<close> throws (or
  where the document is not of that type). \<open>parse_object\<close> decodes a document that is an
  object, as a package descriptor is.
\<close>

record codecs =
  parse_config :: "string \<Rightarrow> VelocityConfig option"
  stringify_config :: "VelocityConfig \<Rightarrow> string"
  parse_manifest :: "string \<Rightarrow> UpgradeManifest option"
  parse_object :: "string \<Rightarrow> (string \<times> json) list option"
  stringify_object :: "(string \<times> json) list \<Rightarrow> string"

text \<open>
  The file-level merge: nothing happens without a package descriptor; otherwise the
  descriptor is read, merged and written back with \<open>JSON.stringify(pkg, null, 2)\<close> and a
  final line feed.
\<close>

definition mergePackageJsonDeps :: "codecs \<Rightarrow> node \<Rightarrow> fpath \<Rightarrow> UpgradeManifest \<Rightarrow> error + node" where
  "mergePackageJsonDeps js fs targetDir manifest =
     (let pkgPath = join targetDir ''package.json''
      in if \<not> existsSync fs pkgPath then Inr fs
         else (case readFileSync fs pkgPath of
                 Inl e \<Rightarrow> Inl e
               | Inr content \<Rightarrow>
                   (case parse_object js content of
                      None \<Rightarrow> Inl SyntaxError
                    | Some pkg \<Rightarrow>
                        writeFileSync fs pkgPath
                          (stringify_object js (merge_deps pkg (dependencies manifest))
                             @ [CHR 0x0A]))))"

subsection \<open>Concrete descriptors\<close>










section \<open>The migration scan (src/upgrade.ts, scanForMigrationPatterns and walkFiles)\<close>

text \<open>
  The loop of \<open>walkFiles\<close> over the entries of a directory; directories named
  \<open>node_modules\<close> or \<open>.git\<close> are not entered. As in \<open>walkDir\<close>, the recursion descends into
  the child directory the entry stands for.
\<close>

fun walk_files_entries :: "(string \<times> node) list \<Rightarrow> fpath \<Rightarrow> fpath list" where
  "walk_files_entries [] dir = []"
| "walk_files_entries ((name, Dir sub) # es) dir =
     (if name = ''node_modules'' \<or> name = ''.git'' then []
      else walk_files_entries sub (join dir name)) @ walk_files_entries es dir"
| "walk_files_entries ((name, n) # es) dir = join dir name # walk_files_entries es dir"

definition walkFiles :: "node \<Rightarrow> fpath \<Rightarrow> fpath list" where
  "walkFiles fs dir =
     (if \<not> existsSync fs dir then []
      else if \<not> isDirectory fs dir then [dir]
      else (case readdirSync fs dir of
              Inl e \<Rightarrow> []
            | Inr entries \<Rightarrow> walk_files_entries entries dir))"

text \<open>\<open>migration.searchPaths?.length ? migration.searchPaths : ['src/']\<close>\<close>

definition search_paths :: "MigrationStep \<Rightarrow> string list" where
  "search_paths migration =
     (case searchPaths migration of
        None \<Rightarrow> [''src/'']
      | Some sp \<Rightarrow> if sp = [] then [''src/''] else sp)"

text \<open>
  The loop over the files of one search path. A read that throws is caught and the file
  skipped. The compiled expression is a test on the content of a file; decoding the bytes
  as UTF-8 never throws and is part of that test.
\<close>

fun scan_files :: "node \<Rightarrow> (string \<Rightarrow> bool) \<Rightarrow> fpath \<Rightarrow> fpath list \<Rightarrow> string list \<Rightarrow> string list" where
  "scan_files fs test targetDir [] matches = matches"
| "scan_files fs test targetDir (file # rest) matches =
     (case readFileSync fs file of
        Inl e \<Rightarrow> scan_files fs test targetDir rest matches
      | Inr content \<Rightarrow>
          if test content
          then scan_files fs test targetDir rest (matches @ [relative targetDir file])
          else scan_files fs test targetDir rest matches)"

fun scan_paths :: "node \<Rightarrow> (string \<Rightarrow> bool) \<Rightarrow> fpath \<Rightarrow> string list \<Rightarrow> string list \<Rightarrow> string list" where
  "scan_paths fs test targetDir [] matches = matches"
| "scan_paths fs test targetDir (searchPath # rest) matches =
     (let fullPath = join targetDir searchPath
      in if \<not> existsSync fs fullPath then scan_paths fs test targetDir rest matches
         else scan_paths fs test targetDir rest
                (scan_files fs test targetDir (walkFiles fs fullPath) matches))"

text \<open>
  The loop over the migration steps. \<open>new RegExp\<close> is a parameter: it gives the test of
  the compiled expression, or \<open>None\<close> where it throws a \<open>SyntaxError\<close>, which nothing
  catches. \<open>!migration.pattern\<close> holds for a missing and for an empty pattern. The result
  is a JavaScript \<open>Map\<close> from titles to lists of paths.
\<close>

fun scan_loop ::
  "(string \<Rightarrow> (string \<Rightarrow> bool) option) \<Rightarrow> node \<Rightarrow> fpath \<Rightarrow> MigrationStep list
     \<Rightarrow> (string \<rightharpoonup> string list) \<Rightarrow> error + (string \<rightharpoonup> string list)" where
  "scan_loop new_RegExp fs targetDir [] results = Inr results"
| "scan_loop new_RegExp fs targetDir (migration # rest) results =
     (case pattern migration of
        None \<Rightarrow> scan_loop new_RegExp fs targetDir rest (results(title migration \<mapsto> []))
      | Some pat \<Rightarrow>
          if pat = []
          then scan_loop new_RegExp fs targetDir rest (results(title migration \<mapsto> []))
          else (case new_RegExp pat of
                  None \<Rightarrow> Inl SyntaxError
                | Some test \<Rightarrow>
                    scan_loop new_RegExp fs targetDir rest
                      (results(title migration \<mapsto>
                         scan_paths fs test targetDir (search_paths migration) []))))"

definition scanForMigrationPatterns ::
  "(string \<Rightarrow> (string \<Rightarrow> bool) option) \<Rightarrow> node \<Rightarrow> fpath \<Rightarrow> MigrationStep list
     \<Rightarrow> error + (string \<rightharpoonup> string list)" where
  "scanForMigrationPatterns new_RegExp fs targetDir steps =
     scan_loop new_RegExp fs targetDir steps Map.empty"

subsection \<open>The files under a search path, in the words of the specification\<close>






subsection \<open>A concrete scan\<close>

fun has_substring :: "string \<Rightarrow> string \<Rightarrow> bool" where
  "has_substring needle [] = (needle = [])"
| "has_substring needle (c # cs) =
     (take (length needle) (c # cs) = needle \<or> has_substring needle cs)"

text \<open>
  The two patterns of the examples under \<open>new RegExp\<close>: \<open>oldApi[(]\<close> compiles to the search
  for the text \<open>oldApi(\<close>, while \<open>oldApi(\<close> has an unterminated group and is rejected with a
  \<open>SyntaxError\<close>. No other pattern is used in the examples.
\<close>

definition sample_RegExp :: "string \<Rightarrow> (string \<Rightarrow> bool) option" where
  "sample_RegExp pat = (if pat = ''oldApi[(]'' then Some (has_substring ''oldApi('') else None)"





section \<open>The upgrade run (src/upgrade.ts, upgrade and cleanup)\<close>

text \<open>
  Modelled from the spec: \<open>readJson\<close> and \<open>writeJson\<close> of utils/fs.js, which is not among
  the sources. The package descriptor is "read/merged/rewritten with 2-space indentation
  and trailing newline" and the metadata file is rewritten whole; the tests of the two
  functions say that \<open>readJson\<close> throws for a missing file and for invalid JSON and that
  \<open>writeJson\<close> writes \<open>JSON.stringify(data, null, 2)\<close> followed by a line feed.
\<close>

definition readJson :: "(string \<Rightarrow> 'a option) \<Rightarrow> node \<Rightarrow> fpath \<Rightarrow> error + 'a" where
  "readJson decode fs p =
     (case readFileSync fs p of
        Inl e \<Rightarrow> Inl e
      | Inr content \<Rightarrow> (case decode content of None \<Rightarrow> Inl SyntaxError | Some v \<Rightarrow> Inr v))"

definition writeJson :: "('a \<Rightarrow> string) \<Rightarrow> node \<Rightarrow> fpath \<Rightarrow> 'a \<Rightarrow> error + node" where
  "writeJson encode fs p v = writeFileSync fs p (encode v @ [CHR 0x0A])"

text \<open>src/utils/velocity-config.ts\<close>

definition readVelocityConfig :: "codecs \<Rightarrow> node \<Rightarrow> fpath \<Rightarrow> error + VelocityConfig option" where
  "readVelocityConfig js fs projectDir =
     (let configPath = join projectDir ''.velocity.json''
      in if \<not> existsSync fs configPath then Inr None
         else (case readJson (parse_config js) fs configPath of
                 Inl e \<Rightarrow> Inl e
               | Inr config \<Rightarrow> Inr (Some config)))"

definition writeVelocityConfig :: "codecs \<Rightarrow> node \<Rightarrow> fpath \<Rightarrow> VelocityConfig \<Rightarrow> error + node" where
  "writeVelocityConfig js fs projectDir config =
     writeJson (stringify_config js) fs (join projectDir ''.velocity.json'') config"

text \<open>The constants of src/upgrade.ts.\<close>

definition CLI_VERSION :: string where
  "CLI_VERSION = ''1.6.0''"

definition FALLBACK_SAFE_FILES :: "string list" where
  "FALLBACK_SAFE_FILES =
     [''src/components/ui/'', ''src/components/seo/'', ''src/components/layout/'',
      ''src/layouts/'', ''src/lib/'', ''src/styles/tokens/'', ''src/styles/global.css'',
      ''src/content.config.ts'', ''tsconfig.json'', ''eslint.config.js'', ''.prettierrc'',
      ''.prettierignore'']"

text \<open>
  What the run receives from outside: the options of the command line and the external
  collaborators. \<open>uncommitted\<close> is the result of \<open>hasUncommittedChanges\<close> (a call of git),
  the two answers are what the user replies to the prompts of \<open>warnDirtyGit\<close> and
  \<open>confirmUpgrade\<close>, \<open>tempDir\<close> is the path built from the temporary directory of the
  system and the clock, \<open>downloadTemplate\<close> gives the disk after the download and the
  error it threw, if any, \<open>rmSync_fails\<close> says whether the recursive removal of
  \<open>cleanup\<close> throws, \<open>today\<close> is the date written into the metadata.
\<close>

record UpgradeOptions =
  targetDir :: fpath
  dryRun :: bool
  yes :: bool

record collaborators =
  uncommitted :: bool
  continue_anyway :: bool
  tempDir :: fpath
  downloadTemplate :: "node \<Rightarrow> node \<times> error option"
  proceed_answer :: bool
  rmSync_fails :: bool
  today :: string
  codec :: codecs
  regexp :: "string \<Rightarrow> (string \<Rightarrow> bool) option"

text \<open>
  The state of a run: the disk and the trace of the effects the run has had so far, one
  event for each call of a collaborator or of a writing step. The run ends by returning, by
  \<open>process.exit\<close> with a code, or by an exception that nothing catches.
\<close>

datatype event = Download | Cleanup | Diff | Copy string | Merge | WriteConfig | Scan

datatype outcome = Returned | Exit nat | Threw error

record world =
  disk :: node
  trace :: "event list"

definition emit :: "event \<Rightarrow> world \<Rightarrow> world" where
  "emit e w = w\<lparr>trace := trace w @ [e]\<rparr>"

text \<open>
  \<open>cleanup\<close>: the removal is tried if the directory exists; an exception of \<open>rmSync\<close> is
  caught and ignored, and the directory is then still there.
\<close>

definition cleanup :: "collaborators \<Rightarrow> world \<Rightarrow> world" where
  "cleanup ext w =
     emit Cleanup
       (if existsSync (disk w) (tempDir ext) \<and> \<not> rmSync_fails ext
        then w\<lparr>disk := remove_at (disk w) (segs (tempDir ext))\<rparr>
        else w)"

text \<open>The two prompts (src/upgrade-prompts.ts).\<close>

definition warnDirtyGit :: "collaborators \<Rightarrow> bool \<Rightarrow> bool" where
  "warnDirtyGit ext assume_yes = (if assume_yes then True else continue_anyway ext)"

definition confirmUpgrade :: "collaborators \<Rightarrow> bool \<Rightarrow> bool" where
  "confirmUpgrade ext dry = (if dry then False else proceed_answer ext)"

text \<open>
  Step 3: the manifest of the fresh template, or the fallback manifest with the version of
  the template's package descriptor when that has one.
\<close>

definition template_version :: "codecs \<Rightarrow> node \<Rightarrow> fpath \<Rightarrow> VelocityConfig \<Rightarrow> error + string" where
  "template_version js fs tmp config =
     (let templatePkgPath = join tmp ''package.json''
      in if \<not> existsSync fs templatePkgPath then Inr (VelocityConfig.version config)
         else (case readJson (parse_object js) fs templatePkgPath of
                 Inl e \<Rightarrow> Inl e
               | Inr templatePkg \<Rightarrow>
                   (case map_of templatePkg ''version'' of
                      Some (JStr v) \<Rightarrow> Inr (if v = [] then VelocityConfig.version config else v)
                    | _ \<Rightarrow> Inr (VelocityConfig.version config))))"

definition load_manifest :: "codecs \<Rightarrow> node \<Rightarrow> fpath \<Rightarrow> VelocityConfig \<Rightarrow> error + UpgradeManifest" where
  "load_manifest js fs tmp config =
     (let manifestPath = join tmp ''velocity-manifest.json''
      in if existsSync fs manifestPath then readJson (parse_manifest js) fs manifestPath
         else (case template_version js fs tmp config of
                 Inl e \<Rightarrow> Inl e
               | Inr templateVersion \<Rightarrow>
                   Inr \<lparr>version = templateVersion, minCliVersion = ''1.0.0'',
                        files = \<lparr>safe = FALLBACK_SAFE_FILES, protected = []\<rparr>,
                        dependencies = \<lparr>update = [], remove = [], add = []\<rparr>,
                        migrations = []\<rparr>))"

text \<open>
  Step 6a: the copy loop. An exception of \<open>mkdirSync\<close> or \<open>copyFileSync\<close> ends the loop
  with the files copied so far in place.
\<close>

fun copy_loop :: "world \<Rightarrow> fpath \<Rightarrow> fpath \<Rightarrow> FileDiff list \<Rightarrow> world \<times> error option" where
  "copy_loop w tmp projectDir [] = (w, None)"
| "copy_loop w tmp projectDir (d # rest) =
     (let src = join tmp (path d);
          dest = join projectDir (path d);
          destDir = dirname dest
      in case (if \<not> existsSync (disk w) destDir then mkdirSync (disk w) destDir
               else Inr (disk w)) of
           Inl e \<Rightarrow> (w, Some e)
         | Inr fs1 \<Rightarrow>
             (case copyFileSync fs1 src dest of
                Inl e \<Rightarrow> (w\<lparr>disk := fs1\<rparr>, Some e)
              | Inr fs2 \<Rightarrow> copy_loop (emit (Copy (path d)) (w\<lparr>disk := fs2\<rparr>)) tmp projectDir rest))"

definition hasDepChanges :: "UpgradeManifest \<Rightarrow> bool" where
  "hasDepChanges manifest =
     (update (dependencies manifest) \<noteq> [] \<or> remove (dependencies manifest) \<noteq> []
      \<or> add (dependencies manifest) \<noteq> [])"

definition upgraded_config :: "collaborators \<Rightarrow> VelocityConfig \<Rightarrow> UpgradeManifest \<Rightarrow> VelocityConfig" where
  "upgraded_config ext config manifest =
     config\<lparr>VelocityConfig.version := version manifest, updatedAt := today ext\<rparr>"

text \<open>Steps 6 to 8: apply the changes, report, clean up.\<close>

definition apply_changes ::
  "collaborators \<Rightarrow> UpgradeOptions \<Rightarrow> VelocityConfig \<Rightarrow> UpgradeManifest \<Rightarrow> FileDiff list
     \<Rightarrow> world \<Rightarrow> world \<times> outcome" where
  "apply_changes ext options config manifest diffs w =
     (let changedDiffs = filter (\<lambda>d. status d = Added \<or> status d = Modified) diffs
      in case copy_loop w (tempDir ext) (targetDir options) changedDiffs of
           (w1, Some e) \<Rightarrow> (w1, Threw e)
         | (w1, None) \<Rightarrow>
             (case (if hasDepChanges manifest
                    then (case mergePackageJsonDeps (codec ext) (disk w1) (targetDir options) manifest of
                            Inl e \<Rightarrow> Inl e
                          | Inr fs2 \<Rightarrow> Inr (emit Merge (w1\<lparr>disk := fs2\<rparr>)))
                    else Inr w1) of
                Inl e \<Rightarrow> (w1, Threw e)
              | Inr w2 \<Rightarrow>
                  (case writeVelocityConfig (codec ext) (disk w2) (targetDir options)
                          (upgraded_config ext config manifest) of
                     Inl e \<Rightarrow> (w2, Threw e)
                   | Inr fs3 \<Rightarrow>
                       (let w3 = emit WriteConfig (w2\<lparr>disk := fs3\<rparr>)
                        in case scanForMigrationPatterns (regexp ext) (disk w3)
                                  (targetDir options) (migrations manifest) of
                             Inl e \<Rightarrow> (w3, Threw e)
                           | Inr matchResults \<Rightarrow> (cleanup ext (emit Scan w3), Returned)))))"

text \<open>Steps 4 and 5: the diff, the metadata-only upgrade, the confirmation.\<close>

definition diff_and_confirm ::
  "collaborators \<Rightarrow> UpgradeOptions \<Rightarrow> VelocityConfig \<Rightarrow> UpgradeManifest
     \<Rightarrow> world \<Rightarrow> world \<times> outcome" where
  "diff_and_confirm ext options config manifest w =
     (case diffProjects (disk w) (targetDir options) (tempDir ext) manifest of
        Inl e \<Rightarrow> (w, Threw e)
      | Inr diffs \<Rightarrow>
          (let w1 = emit Diff w; tally = summarizeDiffs diffs
           in if added tally = 0 \<and> modified tally = 0 \<and> \<not> hasDepChanges manifest
              then (if \<not> dryRun options
                    then (case writeVelocityConfig (codec ext) (disk w1) (targetDir options)
                                 (upgraded_config ext config manifest) of
                            Inl e \<Rightarrow> (w1, Threw e)
                          | Inr fs2 \<Rightarrow> (cleanup ext (emit WriteConfig (w1\<lparr>disk := fs2\<rparr>)), Returned))
                    else (cleanup ext w1, Returned))
              else (let shouldProceed = confirmUpgrade ext (dryRun options)
                    in if dryRun options
                       then (case scanForMigrationPatterns (regexp ext) (disk w1)
                                    (targetDir options) (migrations manifest) of
                               Inl e \<Rightarrow> (w1, Threw e)
                             | Inr matchResults \<Rightarrow> (cleanup ext (emit Scan w1), Returned))
                       else if \<not> shouldProceed then (cleanup ext w1, Returned)
                       else apply_changes ext options config manifest diffs w1)))"

text \<open>
  The checks on the manifest: the version gate, then the test for a project that is
  already on the version of the manifest.
\<close>

definition version_gate ::
  "collaborators \<Rightarrow> UpgradeOptions \<Rightarrow> VelocityConfig \<Rightarrow> UpgradeManifest
     \<Rightarrow> world \<Rightarrow> world \<times> outcome" where
  "version_gate ext options config manifest w =
     (if isVersionLessThan CLI_VERSION (minCliVersion manifest) then (cleanup ext w, Exit 1)
      else if VelocityConfig.version config = version manifest then (cleanup ext w, Returned)
      else diff_and_confirm ext options config manifest w)"

text \<open>Steps 1 to 3 and the whole run.\<close>

definition upgrade :: "collaborators \<Rightarrow> UpgradeOptions \<Rightarrow> world \<Rightarrow> world \<times> outcome" where
  "upgrade ext options w =
     (case readVelocityConfig (codec ext) (disk w) (targetDir options) of
        Inl e \<Rightarrow> (w, Threw e)
      | Inr None \<Rightarrow> (w, Exit 1)
      | Inr (Some config) \<Rightarrow>
          if uncommitted ext \<and> \<not> warnDirtyGit ext (yes options) then (w, Returned)
          else (case downloadTemplate ext (disk w) of
                  (fs1, Some e) \<Rightarrow> (cleanup ext (w\<lparr>disk := fs1\<rparr>), Exit 1)
                | (fs1, None) \<Rightarrow>
                    (let w1 = emit Download (w\<lparr>disk := fs1\<rparr>)
                     in case load_manifest (codec ext) (disk w1) (tempDir ext) config of
                          Inl e \<Rightarrow> (w1, Threw e)
                        | Inr manifest \<Rightarrow> version_gate ext options config manifest w1)))"

subsection \<open>A concrete run against the version gate\<close>

text \<open>
  A project on version 1.0.0 and a template whose manifest asks for an engine of version
  2.0.0 at least. The JSON documents are stand-in texts that the codecs of the example
  decode; \<open>malformed_disk\<close> is the disk after a download whose manifest is not valid JSON.
\<close>

definition gate_config :: VelocityConfig where
  "gate_config =
     \<lparr>VelocityConfig.version = ''1.0.0'', createdAt = ''2025-01-01'', updatedAt = ''2025-01-01'',
      features = \<lparr>demo = False, i18n = False, components = ''all''\<rparr>\<rparr>"

definition gate_manifest :: UpgradeManifest where
  "gate_manifest =
     \<lparr>version = ''2.0.0'', minCliVersion = ''2.0.0'',
      files = \<lparr>safe = [''src/lib/''], protected = []\<rparr>,
      dependencies = \<lparr>update = [], remove = [], add = []\<rparr>,
      migrations = []\<rparr>"

definition toy_codecs :: codecs where
  "toy_codecs =
     \<lparr>parse_config = (\<lambda>s. if s = ''config 1.0.0'' then Some gate_config else None),
      stringify_config = (\<lambda>c. ''config '' @ VelocityConfig.version c),
      parse_manifest = (\<lambda>s. if s = ''manifest 2.0.0'' then Some gate_manifest else None),
      parse_object = (\<lambda>s. None),
      stringify_object = (\<lambda>pkg. [])\<rparr>"

definition project_disk :: node where
  "project_disk = Dir [(''project'', Dir [(''.velocity.json'', File ''config 1.0.0'')])]"

definition downloaded_disk :: node where
  "downloaded_disk =
     Dir [(''project'', Dir [(''.velocity.json'', File ''config 1.0.0'')]),
          (''tmp'', Dir [(''velocity-upgrade'', Dir
             [(''velocity-manifest.json'', File ''manifest 2.0.0'')])])]"

definition malformed_disk :: node where
  "malformed_disk =
     Dir [(''project'', Dir [(''.velocity.json'', File ''config 1.0.0'')]),
          (''tmp'', Dir [(''velocity-upgrade'', Dir
             [(''velocity-manifest.json'', File ''not valid json {{{'')])])]"

definition gate_run :: "node \<Rightarrow> bool \<Rightarrow> collaborators" where
  "gate_run after_download removal_fails =
     \<lparr>uncommitted = False, continue_anyway = False, tempDir = scenario_fresh,
      downloadTemplate = (\<lambda>fs. (after_download, None)), proceed_answer = True,
      rmSync_fails = removal_fails, today = ''2026-01-01'', codec = toy_codecs,
      regexp = sample_RegExp\<rparr>"

definition gate_options :: UpgradeOptions where
  "gate_options = \<lparr>targetDir = scenario_current, dryRun = False, yes = False\<rparr>"

definition start_world :: world where
  "start_world = \<lparr>disk = project_disk, trace = []\<rparr>"

text \<open>Two paths are apart when they differ at a position both have.\<close>

fun apart :: "string list \<Rightarrow> string list \<Rightarrow> bool" where
  "apart (x # xs) (y # ys) = (x \<noteq> y \<or> apart xs ys)"
| "apart xs ys = False"


section \<open>The tally and the version comparison: theorems\<close>

lemma summarize_loop_count:
  "summarize_loop ds s =
     \<lparr>added = added s + count_status Added ds,
      modified = modified s + count_status Modified ds,
      unchanged = unchanged s + count_status Unchanged ds\<rparr>"
  by (induction ds arbitrary: s) (auto simp: count_status_def split: status.splits)

lemma summarize_loop_status_only:
  "map status ds' = map status ds \<Longrightarrow> summarize_loop ds' s = summarize_loop ds s"
proof (induction ds arbitrary: ds' s)
  case Nil
  then show ?case by simp
next
  case (Cons d ds)
  then obtain e es where ds': "ds' = e # es" by (cases ds') auto
  with Cons.prems have st: "status e = status d" and tl: "map status es = map status ds"
    by auto
  show ?case unfolding ds' by (simp add: st Cons.IH [OF tl])
qed

lemma count_status_partition:
  "count_status Added ds + count_status Modified ds + count_status Unchanged ds
     + count_status Removed ds = length ds"
proof (induction ds)
  case Nil
  show ?case by (simp add: count_status_def)
next
  case (Cons d ds)
  then show ?case by (cases "status d") (simp_all add: count_status_def)
qed

text \<open>
  Claim C2. \<open>summarizeDiffs\<close> returns, in each of its three counters, the number of
  entries of the list that carry that status; entries with status \<open>Removed\<close> are in no
  counter, so the three counters add up to the length of the list minus the number of
  removed entries; the empty list gives three zeros; and two lists with the same statuses,
  position by position, get the same summary whatever their paths and categories are.
\<close>

theorem summarizeDiffs_counts:
  "summarizeDiffs ds =
     \<lparr>added = count_status Added ds, modified = count_status Modified ds,
      unchanged = count_status Unchanged ds\<rparr>
   \<and> added (summarizeDiffs ds) + modified (summarizeDiffs ds) + unchanged (summarizeDiffs ds)
       = length ds - count_status Removed ds
   \<and> summarizeDiffs [] = \<lparr>added = 0, modified = 0, unchanged = 0\<rparr>
   \<and> (\<forall>ds'. map status ds' = map status ds \<longrightarrow> summarizeDiffs ds' = summarizeDiffs ds)"
proof -
  have c: "summarizeDiffs ds =
     \<lparr>added = count_status Added ds, modified = count_status Modified ds,
      unchanged = count_status Unchanged ds\<rparr>"
    by (simp add: summarizeDiffs_def summarize_loop_count)
  have p: "added (summarizeDiffs ds) + modified (summarizeDiffs ds) + unchanged (summarizeDiffs ds)
       = length ds - count_status Removed ds"
    using count_status_partition [of ds] by (simp add: c)
  have e: "summarizeDiffs [] = \<lparr>added = 0, modified = 0, unchanged = 0\<rparr>"
    by (simp add: summarizeDiffs_def)
  have s: "\<forall>ds'. map status ds' = map status ds \<longrightarrow> summarizeDiffs ds' = summarizeDiffs ds"
    unfolding summarizeDiffs_def by (intro allI impI) (rule summarize_loop_status_only)
  show ?thesis using c p e s by (intro conjI)
qed

theorem summarizeDiffs_counts_witness:
  "summarizeDiffs
     [\<lparr>path = ''a.ts'', status = Added, category = Safe\<rparr>,
      \<lparr>path = ''g.ts'', status = Removed, category = Safe\<rparr>,
      \<lparr>path = ''c.ts'', status = Modified, category = Protected\<rparr>]
   = \<lparr>added = 1, modified = 1, unchanged = 0\<rparr>
   \<and> summarizeDiffs
     [\<lparr>path = ''x.ts'', status = Added, category = Protected\<rparr>,
      \<lparr>path = ''y.ts'', status = Removed, category = Protected\<rparr>,
      \<lparr>path = ''z.ts'', status = Modified, category = Safe\<rparr>]
   = summarizeDiffs
     [\<lparr>path = ''a.ts'', status = Added, category = Safe\<rparr>,
      \<lparr>path = ''g.ts'', status = Removed, category = Safe\<rparr>,
      \<lparr>path = ''c.ts'', status = Modified, category = Protected\<rparr>]"
proof -
  let ?ds = "[\<lparr>path = ''a.ts'', status = Added, category = Safe\<rparr>,
      \<lparr>path = ''g.ts'', status = Removed, category = Safe\<rparr>,
      \<lparr>path = ''c.ts'', status = Modified, category = Protected\<rparr>]"
  let ?es = "[\<lparr>path = ''x.ts'', status = Added, category = Protected\<rparr>,
      \<lparr>path = ''y.ts'', status = Removed, category = Protected\<rparr>,
      \<lparr>path = ''z.ts'', status = Modified, category = Safe\<rparr>]"
  note t = summarizeDiffs_counts [of ?ds]
  have same: "map status ?es = map status ?ds" by simp
  from t have "summarizeDiffs ?ds =
     \<lparr>added = count_status Added ?ds, modified = count_status Modified ?ds,
      unchanged = count_status Unchanged ?ds\<rparr>" by (rule conjunct1)
  then have one: "summarizeDiffs ?ds = \<lparr>added = 1, modified = 1, unchanged = 0\<rparr>"
    by (simp add: count_status_def)
  have two: "summarizeDiffs ?es = summarizeDiffs ?ds"
    by (rule t [THEN conjunct2, THEN conjunct2, THEN conjunct2, rule_format, OF same])
  from one two show ?thesis by (intro conjI)
qed






section \<open>Path expansion and the diff: theorems\<close>

lemma set_order_set: "set (set_order xs) = set xs"
  by (simp add: set_order_def)

lemma set_order_distinct: "distinct (set_order xs)"
  by (simp add: set_order_def)






lemma relative_cong: "segs t = segs t' \<Longrightarrow> relative b t = relative b t'"
  by (simp add: relative_def)





lemma exists_trail_isDirectory: "existsSync fs d \<Longrightarrow> trail d \<Longrightarrow> isDirectory fs d"
  by (auto simp: isDirectory_def existsSync_def split: option.splits node.splits)

lemma walkDir_total:
  assumes "trail d \<or> isDirectory fs d"
  shows "\<exists>found. walkDir fs d b = Inr found"
proof (cases "existsSync fs d")
  case False
  then show ?thesis by (simp add: walkDir_def)
next
  case True
  with assms have "isDirectory fs d" using exists_trail_isDirectory by blast
  then obtain es where "resolve fs (segs d) = Some (Dir es)"
    by (auto simp: isDirectory_def split: option.splits node.splits)
  then show ?thesis by (simp add: walkDir_def readdirSync_def)
qed

lemma trail_join: "ends_with_slash p \<Longrightarrow> trail (join d p)"
  by (auto simp: join_def ends_with_slash_def)

lemma expand_loop_concat:
  "expand_loop fs ps freshDir acc = Inr (acc @ concat (map (expand_one fs freshDir) ps))"
proof (induction ps arbitrary: acc)
  case Nil
  show ?case by simp
next
  case (Cons p ps)
  show ?case
  proof (cases "ends_with_slash p \<or> (existsSync fs (join freshDir p) \<and> isDirectory fs (join freshDir p))")
    case True
    then have "trail (join freshDir p) \<or> isDirectory fs (join freshDir p)"
      using trail_join by blast
    then obtain found where f: "walkDir fs (join freshDir p) freshDir = Inr found"
      using walkDir_total by blast
    show ?thesis using True f Cons.IH [of "acc @ found"]
      by (simp add: expand_one_def Let_def)
  next
    case False
    then have c: "(if ends_with_slash p \<or> (existsSync fs (join freshDir p) \<and> isDirectory fs (join freshDir p)) then x else y) = y" for x y :: 'z
      by (rule if_not_P)
    show ?thesis using Cons.IH [of "acc @ [p]"]
      by (simp only: expand_loop.simps expand_one_def Let_def c list.map concat.simps append.simps append_assoc)
  qed
qed

lemma expandPaths_concat:
  "expandPaths fs paths freshDir = Inr (set_order (concat (map (expand_one fs freshDir) paths)))"
  by (simp add: expandPaths_def expand_loop_concat)



lemma resolve_None_append: "resolve n p = None \<Longrightarrow> resolve n (p @ q) = None"
  by (induction n p rule: resolve.induct) (auto split: option.splits)

lemma norm_onto_no_dotdot:
  "''..'' \<notin> set xs \<Longrightarrow> norm_onto st xs = st @ filter (\<lambda>s. s \<noteq> [] \<and> s \<noteq> ''.'') xs"
  by (induction xs arbitrary: st) auto

lemma missing_below:
  assumes "resolve fs (segs root) = None" and "''..'' \<notin> set (split_on (\<lambda>c. c = CHR ''/'') p)"
  shows "resolve fs (segs (join root p)) = None"
  using assms by (simp add: join_def norm_onto_no_dotdot resolve_None_append)

lemma missing_not_exists: "resolve fs (segs d) = None \<Longrightarrow> \<not> existsSync fs d"
  by (simp add: existsSync_def)

lemma expand_one_missing:
  assumes "resolve fs (segs root) = None" and "''..'' \<notin> set (split_on (\<lambda>c. c = CHR ''/'') p)"
  shows "expand_one fs root p = (if ends_with_slash p then [] else [p])"
  using missing_not_exists [OF missing_below [OF assms]]
  by (simp add: expand_one_def walkDir_def)

lemma concat_expand_missing:
  assumes "resolve fs (segs root) = None"
    and "\<forall>p\<in>set paths. ''..'' \<notin> set (split_on (\<lambda>c. c = CHR ''/'') p)"
  shows "concat (map (expand_one fs root) paths) = filter (\<lambda>p. \<not> ends_with_slash p) paths"
  using assms(2)
proof (induction paths)
  case Nil
  show ?case by simp
next
  case (Cons p ps)
  then show ?case using expand_one_missing [OF assms(1), of p] by simp
qed

text \<open>
  Claim C5, as amended. When the root does not exist and no entry climbs out of it with a
  \<open>..\<close> segment, the expansion does not fail: every entry written with a trailing
  separator contributes no path, every other entry is returned as the literal declared
  path, and none of the declared entries exists under the root.
\<close>

theorem expandPaths_missing_root:
  assumes "resolve fs (segs root) = None"
    and "\<forall>p\<in>set paths. ''..'' \<notin> set (split_on (\<lambda>c. c = CHR ''/'') p)"
  shows "expandPaths fs paths root = Inr (set_order (filter (\<lambda>p. \<not> ends_with_slash p) paths))
    \<and> (\<forall>p\<in>set paths. \<not> existsSync fs (join root p))"
  using assms concat_expand_missing [OF assms] missing_not_exists missing_below
  by (simp add: expandPaths_concat)


lemma map_filter_Cons_None: "f x = None \<Longrightarrow> List.map_filter f (x # xs) = List.map_filter f xs"
  by (simp add: List.map_filter_def)

lemma map_filter_Cons_Some: "f x = Some y \<Longrightarrow> List.map_filter f (x # xs) = y # List.map_filter f xs"
  by (simp add: List.map_filter_def)

lemma diff_loop_classify:
  assumes "\<forall>p\<in>set ps. existsSync fs (join freshDir p) \<and> existsSync fs (join currentDir p)
             \<longrightarrow> readable fs (join currentDir p) \<and> readable fs (join freshDir p)"
  shows "diff_loop fs currentDir freshDir ps acc
           = Inr (acc @ List.map_filter (classify_spec fs currentDir freshDir) ps)"
  using assms
proof (induction ps arbitrary: acc)
  case Nil
  show ?case by (simp add: List.map_filter_def)
next
  case (Cons p ps)
  have rest: "\<forall>q\<in>set ps. existsSync fs (join freshDir q) \<and> existsSync fs (join currentDir q)
             \<longrightarrow> readable fs (join currentDir q) \<and> readable fs (join freshDir q)"
    using Cons.prems by simp
  note ih = Cons.IH [OF rest]
  show ?case
  proof (cases "existsSync fs (join freshDir p)")
    case False
    then have "classify_spec fs currentDir freshDir p = None" by (simp add: classify_spec_def)
    then show ?thesis using False ih [of acc] by (simp add: map_filter_Cons_None)
  next
    case fresh: True
    show ?thesis
    proof (cases "existsSync fs (join currentDir p)")
      case False
      then have "classify_spec fs currentDir freshDir p
                   = Some \<lparr>path = p, status = Added, category = Safe\<rparr>"
        using fresh by (simp add: classify_spec_def)
      then show ?thesis
        using fresh False ih [of "acc @ [\<lparr>path = p, status = Added, category = Safe\<rparr>]"]
        by (simp add: map_filter_Cons_Some)
    next
      case cur: True
      from Cons.prems fresh cur
      have "readable fs (join currentDir p)" and "readable fs (join freshDir p)" by simp_all
      then obtain cc fc where cc: "readFileSync fs (join currentDir p) = Inr cc"
        and fc: "readFileSync fs (join freshDir p) = Inr fc"
        by (auto simp: readable_def split: sum.splits)
      show ?thesis
      proof (cases "cc = fc")
        case True
        then have "classify_spec fs currentDir freshDir p
                   = Some \<lparr>path = p, status = Unchanged, category = Safe\<rparr>"
          using fresh cur cc fc by (simp add: classify_spec_def)
        then show ?thesis
          using fresh cur cc fc True
            ih [of "acc @ [\<lparr>path = p, status = Unchanged, category = Safe\<rparr>]"]
          by (simp add: map_filter_Cons_Some)
      next
        case False
        then have "classify_spec fs currentDir freshDir p
                   = Some \<lparr>path = p, status = Modified, category = Safe\<rparr>"
          using fresh cur cc fc by (simp add: classify_spec_def)
        then show ?thesis
          using fresh cur cc fc False
            ih [of "acc @ [\<lparr>path = p, status = Modified, category = Safe\<rparr>]"]
          by (simp add: map_filter_Cons_Some)
      qed
    qed
  qed
qed

lemma classify_spec_Some:
  "classify_spec fs c f p = Some d \<Longrightarrow> path d = p \<and> category d = Safe \<and> status d \<noteq> Removed"
  by (auto simp: classify_spec_def split: if_splits)

lemma map_filter_classify_other:
  "p \<notin> set ps \<Longrightarrow> filter (\<lambda>d. path d = p) (List.map_filter (classify_spec fs c f) ps) = []"
proof (induction ps)
  case Nil
  show ?case by (simp add: List.map_filter_def)
next
  case (Cons q ps)
  then have ne: "q \<noteq> p" and ih: "filter (\<lambda>d. path d = p) (List.map_filter (classify_spec fs c f) ps) = []"
    by auto
  show ?case
  proof (cases "classify_spec fs c f q")
    case None
    then show ?thesis using ih by (simp add: map_filter_Cons_None)
  next
    case (Some d)
    then show ?thesis using ih ne classify_spec_Some [OF Some] by (simp add: map_filter_Cons_Some)
  qed
qed

lemma map_filter_classify_one:
  "distinct ps \<Longrightarrow> p \<in> set ps \<Longrightarrow>
     filter (\<lambda>d. path d = p) (List.map_filter (classify_spec fs c f) ps)
       = (case classify_spec fs c f p of None \<Rightarrow> [] | Some d \<Rightarrow> [d])"
proof (induction ps)
  case Nil
  then show ?case by simp
next
  case (Cons q ps)
  show ?case
  proof (cases "q = p")
    case True
    then have "p \<notin> set ps" using Cons.prems by simp
    note other = map_filter_classify_other [OF this, of fs c f]
    show ?thesis
    proof (cases "classify_spec fs c f p")
      case None
      then show ?thesis using other True by (simp add: map_filter_Cons_None)
    next
      case (Some d)
      then show ?thesis using other True classify_spec_Some [OF Some]
        by (simp add: map_filter_Cons_Some)
    qed
  next
    case False
    then have ih: "filter (\<lambda>d. path d = p) (List.map_filter (classify_spec fs c f) ps)
       = (case classify_spec fs c f p of None \<Rightarrow> [] | Some d \<Rightarrow> [d])"
      using Cons by simp
    show ?thesis
    proof (cases "classify_spec fs c f q")
      case None
      then show ?thesis using ih by (simp add: map_filter_Cons_None)
    next
      case (Some d)
      then show ?thesis using ih False classify_spec_Some [OF Some]
        by (simp add: map_filter_Cons_Some)
    qed
  qed
qed

lemma map_filter_classify_mem:
  "d \<in> set (List.map_filter (classify_spec fs c f) ps) \<Longrightarrow>
     path d \<in> set ps \<and> category d = Safe \<and> status d \<noteq> Removed"
  by (auto simp: List.map_filter_def dest: classify_spec_Some)

text \<open>
  Claim C1, as amended. Let \<open>ps\<close> be the expansion of the safe list against the fresh
  root, and let every path of \<open>ps\<close> that exists under both roots be a readable file under
  both. Then \<open>diffProjects\<close> returns a list in which every path of \<open>ps\<close> has no entry when
  it is missing under the fresh root and otherwise exactly one entry, with status added
  when it is missing under the current root, unchanged when the two contents are equal and
  modified otherwise; every entry returned belongs to a path of \<open>ps\<close>, has category safe and
  never status removed.
\<close>

theorem diffProjects_classification:
  assumes "expandPaths fs (safe (files manifest)) freshDir = Inr ps"
    and "\<forall>p\<in>set ps. existsSync fs (join freshDir p) \<and> existsSync fs (join currentDir p)
             \<longrightarrow> readable fs (join currentDir p) \<and> readable fs (join freshDir p)"
  shows "\<exists>ds. diffProjects fs currentDir freshDir manifest = Inr ds
    \<and> (\<forall>p\<in>set ps. filter (\<lambda>d. path d = p) ds
          = (case classify_spec fs currentDir freshDir p of None \<Rightarrow> [] | Some d \<Rightarrow> [d]))
    \<and> (\<forall>d\<in>set ds. path d \<in> set ps \<and> category d = Safe \<and> status d \<noteq> Removed)"
proof -
  let ?ds = "List.map_filter (classify_spec fs currentDir freshDir) ps"
  have run: "diffProjects fs currentDir freshDir manifest = Inr ?ds"
    using assms(1) diff_loop_classify [OF assms(2), of "[]"] by (simp add: diffProjects_def)
  have "distinct ps" using assms(1) by (auto simp: expandPaths_concat set_order_distinct)
  then have one: "\<forall>p\<in>set ps. filter (\<lambda>d. path d = p) ?ds
          = (case classify_spec fs currentDir freshDir p of None \<Rightarrow> [] | Some d \<Rightarrow> [d])"
    using map_filter_classify_one by blast
  have mem: "\<forall>d\<in>set ?ds. path d \<in> set ps \<and> category d = Safe \<and> status d \<noteq> Removed"
    using map_filter_classify_mem by blast
  from run one mem show ?thesis by blast
qed


text \<open>The unfolding rules that evaluate the file-system model on a concrete tree.\<close>

lemmas fs_eval = expandPaths_def join_def ends_with_slash_def walkDir_def existsSync_def
  isDirectory_def readdirSync_def readFileSync_def relative_def set_order_def Let_def


text \<open>
  The expansion against a missing root is not empty in general: an entry without a
  trailing separator is returned although nothing exists below the root.
\<close>

theorem expandPaths_missing_root_counterexample:
  "\<not> existsSync scenario_fs missing_root
   \<and> expandPaths scenario_fs [''tsconfig.json''] missing_root = Inr [''tsconfig.json'']"
  by (simp add: fs_eval scenario_fs_def missing_root_def)

theorem expandPaths_missing_root_witness:
  "resolve scenario_fs (segs missing_root) = None
   \<and> expandPaths scenario_fs [''src/lib/'', ''tsconfig.json''] missing_root = Inr [''tsconfig.json'']"
proof -
  have r: "resolve scenario_fs (segs missing_root) = None"
    by (simp add: scenario_fs_def missing_root_def)
  have n: "\<forall>p\<in>set [''src/lib/'', ''tsconfig.json'']. ''..'' \<notin> set (split_on (\<lambda>c. c = CHR ''/'') p)"
    by simp
  have "expandPaths scenario_fs [''src/lib/'', ''tsconfig.json''] missing_root
          = Inr (set_order (filter (\<lambda>p. \<not> ends_with_slash p) [''src/lib/'', ''tsconfig.json'']))"
    by (rule expandPaths_missing_root [OF r n, THEN conjunct1])
  then have "expandPaths scenario_fs [''src/lib/'', ''tsconfig.json''] missing_root = Inr [''tsconfig.json'']"
    by (simp add: ends_with_slash_def set_order_def)
  with r show ?thesis by simp
qed

text \<open>
  Without the readability condition the claim fails: where the project holds a directory
  at a path that is a file in the template, the path exists under both roots, the read of
  the project side raises \<open>EISDIR\<close> and \<open>diffProjects\<close> returns no list at all.
\<close>

theorem diffProjects_classification_counterexample:
  "expandPaths clash_fs [''src/lib/''] scenario_fresh = Inr [''src/lib/util'']
   \<and> existsSync clash_fs (join scenario_fresh ''src/lib/util'')
   \<and> existsSync clash_fs (join scenario_current ''src/lib/util'')
   \<and> diffProjects clash_fs scenario_current scenario_fresh scenario_manifest = Inl EISDIR"
  by (simp add: fs_eval diffProjects_def clash_fs_def scenario_fresh_def scenario_current_def
        scenario_manifest_def)

theorem diffProjects_classification_witness:
  "expandPaths scenario_fs (safe (files scenario_manifest)) scenario_fresh
     = Inr [''src/lib/a.ts'', ''src/lib/b.ts'', ''src/lib/c.ts'']
   \<and> (\<exists>ds. diffProjects scenario_fs scenario_current scenario_fresh scenario_manifest = Inr ds
        \<and> filter (\<lambda>d. path d = ''src/lib/a.ts'') ds
            = [\<lparr>path = ''src/lib/a.ts'', status = Unchanged, category = Safe\<rparr>]
        \<and> filter (\<lambda>d. path d = ''src/lib/b.ts'') ds
            = [\<lparr>path = ''src/lib/b.ts'', status = Modified, category = Safe\<rparr>]
        \<and> filter (\<lambda>d. path d = ''src/lib/c.ts'') ds
            = [\<lparr>path = ''src/lib/c.ts'', status = Added, category = Safe\<rparr>])"
proof -
  let ?ps = "[''src/lib/a.ts'', ''src/lib/b.ts'', ''src/lib/c.ts'']"
  have e: "expandPaths scenario_fs (safe (files scenario_manifest)) scenario_fresh = Inr ?ps"
    by (simp add: fs_eval scenario_fs_def scenario_fresh_def scenario_manifest_def)
  have r: "\<forall>p\<in>set ?ps.
      existsSync scenario_fs (join scenario_fresh p) \<and> existsSync scenario_fs (join scenario_current p)
        \<longrightarrow> readable scenario_fs (join scenario_current p) \<and> readable scenario_fs (join scenario_fresh p)"
    by (simp add: fs_eval readable_def scenario_fs_def scenario_fresh_def scenario_current_def)
  from diffProjects_classification [OF e r]
  obtain ds where run: "diffProjects scenario_fs scenario_current scenario_fresh scenario_manifest = Inr ds"
    and one: "\<forall>p\<in>set ?ps. filter (\<lambda>d. path d = p) ds
          = (case classify_spec scenario_fs scenario_current scenario_fresh p of None \<Rightarrow> [] | Some d \<Rightarrow> [d])"
    by blast
  have a: "classify_spec scenario_fs scenario_current scenario_fresh ''src/lib/a.ts''
             = Some \<lparr>path = ''src/lib/a.ts'', status = Unchanged, category = Safe\<rparr>"
    by (simp add: classify_spec_def fs_eval scenario_fs_def scenario_fresh_def scenario_current_def)
  have b: "classify_spec scenario_fs scenario_current scenario_fresh ''src/lib/b.ts''
             = Some \<lparr>path = ''src/lib/b.ts'', status = Modified, category = Safe\<rparr>"
    by (simp add: classify_spec_def fs_eval scenario_fs_def scenario_fresh_def scenario_current_def)
  have c: "classify_spec scenario_fs scenario_current scenario_fresh ''src/lib/c.ts''
             = Some \<lparr>path = ''src/lib/c.ts'', status = Added, category = Safe\<rparr>"
    by (simp add: classify_spec_def fs_eval scenario_fs_def scenario_fresh_def scenario_current_def)
  have fa: "filter (\<lambda>d. path d = ''src/lib/a.ts'') ds
            = [\<lparr>path = ''src/lib/a.ts'', status = Unchanged, category = Safe\<rparr>]"
    using one a by simp
  have fb: "filter (\<lambda>d. path d = ''src/lib/b.ts'') ds
            = [\<lparr>path = ''src/lib/b.ts'', status = Modified, category = Safe\<rparr>]"
    using one b by simp
  have fc: "filter (\<lambda>d. path d = ''src/lib/c.ts'') ds
            = [\<lparr>path = ''src/lib/c.ts'', status = Added, category = Safe\<rparr>]"
    using one c by simp
  from e run fa fb fc show ?thesis by blast
qed


section \<open>The dependency merge: theorems\<close>




lemma map_of_obj_set: "map_of (obj_set kvs k v) k' = (if k' = k then Some v else map_of kvs k')"
  by (induction kvs) auto

lemma map_of_obj_delete: "map_of (obj_delete kvs k) k' = (if k' = k then None else map_of kvs k')"
  by (induction kvs) (auto simp: obj_delete_def)

lemma dep_section_obj_set:
  "dep_section (obj_set pkg s (JObj kvs)) s' = (if s' = s then Some kvs else dep_section pkg s')"
  by (simp add: dep_section_def map_of_obj_set)







lemma section_unassign:
  "dep_section (unassign pkg s k) s' = None \<longleftrightarrow> dep_section pkg s' = None"
  by (auto simp: unassign_def dep_section_obj_set split: option.splits)



lemma section_ensure_other:
  "dep_section (ensure pkg s) s' = None \<longleftrightarrow> s' \<noteq> s \<and> dep_section pkg s' = None"
  by (auto simp: ensure_def dep_section_obj_set split: option.splits)
















































section \<open>The migration scan: theorems\<close>
























section \<open>The upgrade run: theorems\<close>

lemma resolve_file_below: "\<not> is_dir n \<Longrightarrow> ss \<noteq> [] \<Longrightarrow> resolve n ss = None"
  by (cases n; cases ss) simp_all

lemma resolve_remove_at_self: "p \<noteq> [] \<Longrightarrow> resolve (remove_at n p) p = None"
  by (induction n p rule: remove_at.induct)
     (auto simp: map_of_obj_delete map_of_obj_set resolve_file_below split: option.splits)

lemma resolve_remove_at_apart: "apart p q \<Longrightarrow> resolve (remove_at n p) q = resolve n q"
proof (induction n p arbitrary: q rule: remove_at.induct)
  case (1 es s)
  then obtain y ys where q: "q = y # ys" and ne: "s \<noteq> y" by (cases q) auto
  show ?case using ne by (simp add: q map_of_obj_delete)
next
  case (2 es s v va)
  then obtain y ys where q: "q = y # ys" and a: "s \<noteq> y \<or> apart (v # va) ys"
    by (cases q) auto
  show ?case
  proof (cases "map_of es s")
    case None
    then show ?thesis by simp
  next
    case (Some c)
    show ?thesis
    proof (cases "y = s")
      case True
      with a have "apart (v # va) ys" by simp
      then have "resolve (remove_at c (v # va)) ys = resolve c ys" by (rule "2.IH" [OF Some])
      then show ?thesis using Some True by (simp add: q map_of_obj_set)
    next
      case False
      then show ?thesis using Some by (simp add: q map_of_obj_set)
    qed
  qed
qed simp_all

lemma same_node_same_reads:
  assumes "resolve fs' (segs p) = resolve fs (segs p)"
  shows "existsSync fs' p = existsSync fs p" and "readFileSync fs' p = readFileSync fs p"
  using assms by (simp_all add: existsSync_def readFileSync_def)

lemma readVelocityConfig_cong:
  assumes "resolve fs' (segs (join dir ''.velocity.json'')) = resolve fs (segs (join dir ''.velocity.json''))"
  shows "readVelocityConfig js fs' dir = readVelocityConfig js fs dir"
  using same_node_same_reads [OF assms]
  by (simp add: readVelocityConfig_def readJson_def Let_def)

lemma trace_cleanup: "trace (cleanup ext w) = trace w @ [Cleanup]"
  by (simp add: cleanup_def emit_def)

lemma disk_cleanup:
  "disk (cleanup ext w) =
     (if existsSync (disk w) (tempDir ext) \<and> \<not> rmSync_fails ext
      then remove_at (disk w) (segs (tempDir ext)) else disk w)"
  by (simp add: cleanup_def emit_def)

text \<open>
  Claim C7, as amended. Let a run reach the version gate: the metadata is read, the user
  has not declined at the warning about uncommitted changes, the download succeeds and a
  manifest is loaded. If the version of the engine is less than the \<open>minCliVersion\<close> of that
  manifest, the run ends with exit code 1; its effects are the download and the call of
  \<open>cleanup\<close>, in this order, with no diff, no copy, no merge and no write of the metadata;
  the disk is the one the download left, with the ephemeral directory removed unless that
  removal failed; and the metadata file, lying outside the ephemeral directory, reads as
  it did after the download.
\<close>

theorem version_gate_aborts:
  assumes cfg: "readVelocityConfig (codec ext) (disk w) (targetDir options) = Inr (Some config)"
    and go: "\<not> (uncommitted ext \<and> \<not> warnDirtyGit ext (yes options))"
    and dl: "downloadTemplate ext (disk w) = (fs1, None)"
    and mf: "load_manifest (codec ext) fs1 (tempDir ext) config = Inr manifest"
    and old: "isVersionLessThan CLI_VERSION (minCliVersion manifest)"
  shows "\<exists>w'. upgrade ext options w = (w', Exit 1)
    \<and> trace w' = trace w @ [Download, Cleanup]
    \<and> disk w' = (if existsSync fs1 (tempDir ext) \<and> \<not> rmSync_fails ext
                  then remove_at fs1 (segs (tempDir ext)) else fs1)
    \<and> (\<not> rmSync_fails ext \<and> segs (tempDir ext) \<noteq> [] \<longrightarrow> \<not> existsSync (disk w') (tempDir ext))
    \<and> (apart (segs (tempDir ext)) (segs (join (targetDir options) ''.velocity.json'')) \<longrightarrow>
          readVelocityConfig (codec ext) (disk w') (targetDir options)
            = readVelocityConfig (codec ext) fs1 (targetDir options))"
proof -
  let ?w1 = "emit Download (w\<lparr>disk := fs1\<rparr>)"
  let ?w' = "cleanup ext ?w1"
  have d1: "disk ?w1 = fs1" and t1: "trace ?w1 = trace w @ [Download]"
    by (simp_all add: emit_def)
  have run: "upgrade ext options w = (?w', Exit 1)"
    using cfg go dl mf old d1 by (simp add: upgrade_def version_gate_def Let_def)
  have tr: "trace ?w' = trace w @ [Download, Cleanup]"
    by (simp add: trace_cleanup t1)
  have dk: "disk ?w' = (if existsSync fs1 (tempDir ext) \<and> \<not> rmSync_fails ext
                  then remove_at fs1 (segs (tempDir ext)) else fs1)"
    by (simp add: disk_cleanup d1)
  have gone: "\<not> rmSync_fails ext \<and> segs (tempDir ext) \<noteq> [] \<longrightarrow> \<not> existsSync (disk ?w') (tempDir ext)"
  proof
    assume a: "\<not> rmSync_fails ext \<and> segs (tempDir ext) \<noteq> []"
    show "\<not> existsSync (disk ?w') (tempDir ext)"
    proof (cases "existsSync fs1 (tempDir ext)")
      case True
      then have "disk ?w' = remove_at fs1 (segs (tempDir ext))" using a dk by simp
      then show ?thesis using a by (simp add: existsSync_def resolve_remove_at_self)
    next
      case False
      then show ?thesis using dk by simp
    qed
  qed
  have meta: "apart (segs (tempDir ext)) (segs (join (targetDir options) ''.velocity.json'')) \<longrightarrow>
          readVelocityConfig (codec ext) (disk ?w') (targetDir options)
            = readVelocityConfig (codec ext) fs1 (targetDir options)"
  proof
    assume a: "apart (segs (tempDir ext)) (segs (join (targetDir options) ''.velocity.json''))"
    have "resolve (disk ?w') (segs (join (targetDir options) ''.velocity.json''))
            = resolve fs1 (segs (join (targetDir options) ''.velocity.json''))"
      unfolding dk using resolve_remove_at_apart [OF a] by simp
    then show "readVelocityConfig (codec ext) (disk ?w') (targetDir options)
            = readVelocityConfig (codec ext) fs1 (targetDir options)"
      by (rule readVelocityConfig_cong)
  qed
  show ?thesis
    by (rule exI [of _ ?w']) (intro conjI run tr dk gone meta)
qed


text \<open>
  Every exit of a run by \<open>return\<close> or \<open>process.exit\<close> either comes before the download, with
  no effect at all, or has the call of \<open>cleanup\<close> as its last effect.
\<close>

lemma trace_emit: "trace (emit e w) = trace w @ [e]"
  by (simp add: emit_def)

lemma copy_loop_trace:
  "copy_loop w tmp dir ds = (w1, r) \<Longrightarrow> \<exists>mid. trace w1 = trace w @ mid"
proof (induction ds arbitrary: w)
  case Nil
  then show ?case by simp
next
  case (Cons d ds)
  let ?dest = "join dir (path d)"
  let ?src = "join tmp (path d)"
  show ?case
  proof (cases "if \<not> existsSync (disk w) (dirname ?dest) then mkdirSync (disk w) (dirname ?dest)
      else Inr (disk w)")
    case (Inl e)
    then have "copy_loop w tmp dir (d # ds) = (w, Some e)" by (simp add: Let_def)
    with Cons.prems show ?thesis by simp
  next
    case (Inr fs1)
    show ?thesis
    proof (cases "copyFileSync fs1 ?src ?dest")
      case (Inl e)
      then have "copy_loop w tmp dir (d # ds) = (w\<lparr>disk := fs1\<rparr>, Some e)"
        using Inr by (simp add: Let_def)
      with Cons.prems show ?thesis by auto
    next
      case (Inr fs2)
      let ?w2 = "emit (Copy (path d)) (w\<lparr>disk := fs2\<rparr>)"
      have "copy_loop w tmp dir (d # ds) = copy_loop ?w2 tmp dir ds"
        using \<open>(if \<not> existsSync (disk w) (dirname ?dest) then mkdirSync (disk w) (dirname ?dest)
      else Inr (disk w)) = Inr fs1\<close> Inr by (simp add: Let_def)
      with Cons.prems have "copy_loop ?w2 tmp dir ds = (w1, r)" by simp
      from Cons.IH [OF this] obtain mid where "trace w1 = trace ?w2 @ mid" by blast
      then have "trace w1 = trace w @ (Copy (path d) # mid)" by (simp add: trace_emit)
      then show ?thesis by blast
    qed
  qed
qed

lemma apply_changes_exit:
  assumes "apply_changes ext options config manifest diffs w = (w', out)"
    and "\<forall>e. out \<noteq> Threw e"
  shows "\<exists>mid. trace w' = trace w @ mid @ [Cleanup]"
proof -
  let ?changed = "filter (\<lambda>d. status d = Added \<or> status d = Modified) diffs"
  obtain w1 r where cl: "copy_loop w (tempDir ext) (targetDir options) ?changed = (w1, r)"
    by (cases "copy_loop w (tempDir ext) (targetDir options) ?changed")
  from copy_loop_trace [OF cl] obtain m1 where t1: "trace w1 = trace w @ m1" by blast
  show ?thesis
  proof (cases r)
    case (Some e)
    then have "out = Threw e" using assms(1) cl by (simp add: apply_changes_def Let_def)
    with assms(2) show ?thesis by simp
  next
    case None
    let ?merged = "if hasDepChanges manifest
                    then (case mergePackageJsonDeps (codec ext) (disk w1) (targetDir options) manifest of
                            Inl e \<Rightarrow> Inl e
                          | Inr fs2 \<Rightarrow> Inr (emit Merge (w1\<lparr>disk := fs2\<rparr>)))
                    else Inr w1"
    show ?thesis
    proof (cases ?merged)
      case (Inl e)
      then have "out = Threw e" using assms(1) cl None by (simp add: apply_changes_def Let_def)
      with assms(2) show ?thesis by simp
    next
      case (Inr w2)
      then have "\<exists>m2. trace w2 = trace w1 @ m2"
        by (auto simp: trace_emit split: if_splits sum.splits)
      then obtain m2 where t2: "trace w2 = trace w1 @ m2" by blast
      show ?thesis
      proof (cases "writeVelocityConfig (codec ext) (disk w2) (targetDir options)
                          (upgraded_config ext config manifest)")
        case (Inl e)
        then have "out = Threw e" using assms(1) cl None Inr
          by (simp add: apply_changes_def Let_def)
        with assms(2) show ?thesis by simp
      next
        case wr: (Inr fs3)
        let ?w3 = "emit WriteConfig (w2\<lparr>disk := fs3\<rparr>)"
        show ?thesis
        proof (cases "scanForMigrationPatterns (regexp ext) (disk ?w3)
                                  (targetDir options) (migrations manifest)")
          case (Inl e)
          then have "out = Threw e" using assms(1) cl None Inr wr
            by (simp add: apply_changes_def Let_def)
          with assms(2) show ?thesis by simp
        next
          case sc: (Inr matchResults)
          then have "w' = cleanup ext (emit Scan ?w3)" using assms(1) cl None Inr wr
            by (simp add: apply_changes_def Let_def)
          then have "trace w' = trace w @ (m1 @ m2 @ [WriteConfig, Scan]) @ [Cleanup]"
            by (simp add: trace_cleanup trace_emit t1 t2)
          then show ?thesis by blast
        qed
      qed
    qed
  qed
qed


lemma diff_and_confirm_exit:
  assumes "diff_and_confirm ext options config manifest w = (w', out)"
    and "\<forall>e. out \<noteq> Threw e"
  shows "\<exists>mid. trace w' = trace w @ mid @ [Cleanup]"
proof (cases "diffProjects (disk w) (targetDir options) (tempDir ext) manifest")
  case (Inl e)
  then have "out = Threw e" using assms(1) by (simp add: diff_and_confirm_def)
  with assms(2) show ?thesis by simp
next
  case (Inr diffs)
  let ?w1 = "emit Diff w"
  let ?tally = "summarizeDiffs diffs"
  have t1: "trace ?w1 = trace w @ [Diff]" by (simp add: trace_emit)
  show ?thesis
  proof (cases "added ?tally = 0 \<and> modified ?tally = 0 \<and> \<not> hasDepChanges manifest")
    case True
    show ?thesis
    proof (cases "dryRun options")
      case True
      then have "w' = cleanup ext ?w1"
        using assms(1) Inr \<open>added ?tally = 0 \<and> modified ?tally = 0 \<and> \<not> hasDepChanges manifest\<close>
        by (simp add: diff_and_confirm_def Let_def)
      then have "trace w' = trace w @ [Diff] @ [Cleanup]" by (simp add: trace_cleanup t1)
      then show ?thesis by blast
    next
      case False
      show ?thesis
      proof (cases "writeVelocityConfig (codec ext) (disk ?w1) (targetDir options)
                                 (upgraded_config ext config manifest)")
        case (Inl e)
        then have "out = Threw e"
          using assms(1) Inr False
            \<open>added ?tally = 0 \<and> modified ?tally = 0 \<and> \<not> hasDepChanges manifest\<close>
          by (simp add: diff_and_confirm_def Let_def)
        with assms(2) show ?thesis by simp
      next
        case wr: (Inr fs2)
        then have "w' = cleanup ext (emit WriteConfig (?w1\<lparr>disk := fs2\<rparr>))"
          using assms(1) Inr False
            \<open>added ?tally = 0 \<and> modified ?tally = 0 \<and> \<not> hasDepChanges manifest\<close>
          by (simp add: diff_and_confirm_def Let_def)
        then have "trace w' = trace w @ [Diff, WriteConfig] @ [Cleanup]"
          by (simp add: trace_cleanup trace_emit)
        then show ?thesis by blast
      qed
    qed
  next
    case changes: False
    show ?thesis
    proof (cases "dryRun options")
      case True
      show ?thesis
      proof (cases "scanForMigrationPatterns (regexp ext) (disk ?w1)
                                    (targetDir options) (migrations manifest)")
        case (Inl e)
        then have "out = Threw e" using assms(1) Inr True changes
          by (simp add: diff_and_confirm_def Let_def)
        with assms(2) show ?thesis by simp
      next
        case sc: (Inr matchResults)
        then have "w' = cleanup ext (emit Scan ?w1)" using assms(1) Inr True changes
          by (simp add: diff_and_confirm_def Let_def)
        then have "trace w' = trace w @ [Diff, Scan] @ [Cleanup]"
          by (simp add: trace_cleanup trace_emit)
        then show ?thesis by blast
      qed
    next
      case False
      show ?thesis
      proof (cases "confirmUpgrade ext (dryRun options)")
        case declined: False
        then have "w' = cleanup ext ?w1" using assms(1) Inr False changes
          by (simp add: diff_and_confirm_def Let_def)
        then have "trace w' = trace w @ [Diff] @ [Cleanup]" by (simp add: trace_cleanup t1)
        then show ?thesis by blast
      next
        case True
        then have "apply_changes ext options config manifest diffs ?w1 = (w', out)"
          using assms(1) Inr False changes by (simp add: diff_and_confirm_def Let_def)
        from apply_changes_exit [OF this assms(2)]
        obtain mid where "trace w' = trace ?w1 @ mid @ [Cleanup]" by blast
        then have "trace w' = trace w @ (Diff # mid) @ [Cleanup]" by (simp add: t1)
        then show ?thesis by blast
      qed
    qed
  qed
qed

lemma version_gate_exit:
  assumes "version_gate ext options config manifest w = (w', out)"
    and "\<forall>e. out \<noteq> Threw e"
  shows "\<exists>mid. trace w' = trace w @ mid @ [Cleanup]"
proof (cases "isVersionLessThan CLI_VERSION (minCliVersion manifest)
              \<or> VelocityConfig.version config = version manifest")
  case True
  then have "w' = cleanup ext w"
    using assms(1) by (auto simp: version_gate_def split: if_splits)
  then have "trace w' = trace w @ [] @ [Cleanup]" by (simp add: trace_cleanup)
  then show ?thesis by blast
next
  case False
  then have "diff_and_confirm ext options config manifest w = (w', out)"
    using assms(1) by (simp add: version_gate_def)
  then show ?thesis using assms(2) by (rule diff_and_confirm_exit)
qed

lemma upgrade_cleanup_on_exit:
  assumes "upgrade ext options w = (w', out)" and "\<forall>e. out \<noteq> Threw e"
  shows "trace w' = trace w \<or> (\<exists>mid. trace w' = trace w @ mid @ [Cleanup])"
proof (cases "readVelocityConfig (codec ext) (disk w) (targetDir options)")
  case (Inl e)
  then have "out = Threw e" using assms(1) by (simp add: upgrade_def)
  with assms(2) show ?thesis by simp
next
  case (Inr found)
  show ?thesis
  proof (cases found)
    case None
    then have "w' = w" using assms(1) Inr by (simp add: upgrade_def)
    then show ?thesis by simp
  next
    case (Some config)
    show ?thesis
    proof (cases "uncommitted ext \<and> \<not> warnDirtyGit ext (yes options)")
      case True
      then have "w' = w" using assms(1) Inr Some by (simp add: upgrade_def)
      then show ?thesis by simp
    next
      case False
      obtain fs1 r where dl: "downloadTemplate ext (disk w) = (fs1, r)"
        by (cases "downloadTemplate ext (disk w)")
      show ?thesis
      proof (cases r)
        case failed: (Some e)
        then have "w' = cleanup ext (w\<lparr>disk := fs1\<rparr>)"
          using assms(1) Inr Some False dl by (simp add: upgrade_def)
        then have "trace w' = trace w @ [] @ [Cleanup]" by (simp add: trace_cleanup)
        then show ?thesis by blast
      next
        case None
        let ?w1 = "emit Download (w\<lparr>disk := fs1\<rparr>)"
        have t1: "trace ?w1 = trace w @ [Download]" by (simp add: trace_emit)
        show ?thesis
        proof (cases "load_manifest (codec ext) (disk ?w1) (tempDir ext) config")
          case (Inl e)
          then have "out = Threw e" using assms(1) Inr Some False dl None
            by (simp add: upgrade_def Let_def)
          with assms(2) show ?thesis by simp
        next
          case lm: (Inr manifest)
          then have "version_gate ext options config manifest ?w1 = (w', out)"
            using assms(1) Inr Some False dl None by (simp add: upgrade_def Let_def)
          from version_gate_exit [OF this assms(2)]
          obtain mid where "trace w' = trace ?w1 @ mid @ [Cleanup]" by blast
          then have "trace w' = trace w @ (Download # mid) @ [Cleanup]" by (simp add: t1)
          then show ?thesis by blast
        qed
      qed
    qed
  qed
qed


text \<open>The unfolding rules that evaluate a concrete run.\<close>

lemmas run_eval = upgrade_def version_gate_def load_manifest_def readVelocityConfig_def
  readJson_def cleanup_def emit_def warnDirtyGit_def gate_run_def gate_options_def
  start_world_def toy_codecs_def project_disk_def scenario_current_def scenario_fresh_def

lemma gate_is_closed: "isVersionLessThan CLI_VERSION (minCliVersion gate_manifest)"
  by code_simp

text \<open>
  When the removal fails, the failure is swallowed and the ephemeral directory is still
  on the disk after the fatal exit.
\<close>

theorem version_gate_aborts_counterexample:
  "isVersionLessThan CLI_VERSION (minCliVersion gate_manifest)
   \<and> upgrade (gate_run downloaded_disk True) gate_options start_world
       = (\<lparr>disk = downloaded_disk, trace = [Download, Cleanup]\<rparr>, Exit 1)
   \<and> existsSync downloaded_disk scenario_fresh"
proof -
  have run: "upgrade (gate_run downloaded_disk True) gate_options start_world
       = (\<lparr>disk = downloaded_disk, trace = [Download, Cleanup]\<rparr>, Exit 1)"
    using gate_is_closed by (simp add: run_eval fs_eval downloaded_disk_def)
  have there: "existsSync downloaded_disk scenario_fresh"
    by (simp add: fs_eval downloaded_disk_def scenario_fresh_def)
  from gate_is_closed run there show ?thesis by (intro conjI)
qed

theorem version_gate_aborts_witness:
  "readVelocityConfig toy_codecs project_disk scenario_current = Inr (Some gate_config)
   \<and> load_manifest toy_codecs downloaded_disk scenario_fresh gate_config = Inr gate_manifest
   \<and> isVersionLessThan CLI_VERSION (minCliVersion gate_manifest)
   \<and> (\<exists>w'. upgrade (gate_run downloaded_disk False) gate_options start_world = (w', Exit 1)
         \<and> trace w' = [Download, Cleanup]
         \<and> \<not> existsSync (disk w') scenario_fresh
         \<and> readVelocityConfig toy_codecs (disk w') scenario_current = Inr (Some gate_config))"
proof -
  let ?ext = "gate_run downloaded_disk False"
  have sel: "codec ?ext = toy_codecs" "tempDir ?ext = scenario_fresh" "\<not> rmSync_fails ?ext"
    "disk start_world = project_disk" "trace start_world = []"
    "targetDir gate_options = scenario_current"
    by (simp_all add: gate_run_def start_world_def gate_options_def)
  have cfg0: "readVelocityConfig toy_codecs project_disk scenario_current = Inr (Some gate_config)"
    by (simp add: readVelocityConfig_def readJson_def toy_codecs_def project_disk_def
          scenario_current_def fs_eval)
  have cfg1: "readVelocityConfig toy_codecs downloaded_disk scenario_current = Inr (Some gate_config)"
    by (simp add: readVelocityConfig_def readJson_def toy_codecs_def downloaded_disk_def
          scenario_current_def fs_eval)
  have cfg: "readVelocityConfig (codec ?ext) (disk start_world) (targetDir gate_options)
               = Inr (Some gate_config)"
    using cfg0 by (simp add: sel)
  have go: "\<not> (uncommitted ?ext \<and> \<not> warnDirtyGit ?ext (yes gate_options))"
    by (simp add: gate_run_def)
  have dl: "downloadTemplate ?ext (disk start_world) = (downloaded_disk, None)"
    by (simp add: gate_run_def)
  have mf0: "load_manifest toy_codecs downloaded_disk scenario_fresh gate_config = Inr gate_manifest"
    by (simp add: load_manifest_def readJson_def toy_codecs_def downloaded_disk_def
          scenario_fresh_def fs_eval)
  have mf: "load_manifest (codec ?ext) downloaded_disk (tempDir ?ext) gate_config = Inr gate_manifest"
    using mf0 by (simp add: sel)
  from version_gate_aborts [OF cfg go dl mf gate_is_closed]
  obtain w' where all: "upgrade ?ext gate_options start_world = (w', Exit 1)
    \<and> trace w' = trace start_world @ [Download, Cleanup]
    \<and> disk w' = (if existsSync downloaded_disk (tempDir ?ext) \<and> \<not> rmSync_fails ?ext
                  then remove_at downloaded_disk (segs (tempDir ?ext)) else downloaded_disk)
    \<and> (\<not> rmSync_fails ?ext \<and> segs (tempDir ?ext) \<noteq> [] \<longrightarrow> \<not> existsSync (disk w') (tempDir ?ext))
    \<and> (apart (segs (tempDir ?ext)) (segs (join (targetDir gate_options) ''.velocity.json'')) \<longrightarrow>
          readVelocityConfig (codec ?ext) (disk w') (targetDir gate_options)
            = readVelocityConfig (codec ?ext) downloaded_disk (targetDir gate_options))"
    by (rule exE)
  note run = all [THEN conjunct1]
  have tr: "trace w' = [Download, Cleanup]"
    using all [THEN conjunct2, THEN conjunct1] by (simp add: sel)
  have "\<not> rmSync_fails ?ext \<and> segs (tempDir ?ext) \<noteq> []"
    by (simp add: gate_run_def scenario_fresh_def)
  then have "\<not> existsSync (disk w') (tempDir ?ext)"
    by (rule all [THEN conjunct2, THEN conjunct2, THEN conjunct2, THEN conjunct1, THEN mp])
  then have gone: "\<not> existsSync (disk w') scenario_fresh" by (simp add: sel)
  have "apart (segs (tempDir ?ext)) (segs (join (targetDir gate_options) ''.velocity.json''))"
    by (simp add: gate_run_def gate_options_def scenario_fresh_def scenario_current_def join_def)
  then have "readVelocityConfig (codec ?ext) (disk w') (targetDir gate_options)
            = readVelocityConfig (codec ?ext) downloaded_disk (targetDir gate_options)"
    by (rule all [THEN conjunct2, THEN conjunct2, THEN conjunct2, THEN conjunct2, THEN mp])
  then have meta: "readVelocityConfig toy_codecs (disk w') scenario_current = Inr (Some gate_config)"
    using cfg1 by (simp add: sel)
  from run tr gone meta
  have "\<exists>w'. upgrade ?ext gate_options start_world = (w', Exit 1)
         \<and> trace w' = [Download, Cleanup]
         \<and> \<not> existsSync (disk w') scenario_fresh
         \<and> readVelocityConfig toy_codecs (disk w') scenario_current = Inr (Some gate_config)"
    by (intro exI [of _ w'] conjI)
  with cfg0 mf0 gate_is_closed show ?thesis by (intro conjI)
qed

text \<open>
  Claim C9. The removal of the ephemeral directory is attempted on every exit by
  \<open>return\<close> or \<open>process.exit\<close> (lemma \<open>upgrade_cleanup_on_exit\<close>), and \<open>cleanup\<close> itself
  never throws; but an exception after the download is not caught. At the input below
  the downloaded manifest is not valid JSON: \<open>readJson\<close> throws, the run ends with that
  exception, \<open>cleanup\<close> is never called and the ephemeral directory stays on the disk.
\<close>

theorem upgrade_leaks_on_malformed_manifest:
  "upgrade (gate_run malformed_disk False) gate_options start_world
     = (\<lparr>disk = malformed_disk, trace = [Download]\<rparr>, Threw SyntaxError)
   \<and> existsSync malformed_disk scenario_fresh"
proof -
  have run: "upgrade (gate_run malformed_disk False) gate_options start_world
     = (\<lparr>disk = malformed_disk, trace = [Download]\<rparr>, Threw SyntaxError)"
    by (simp add: run_eval fs_eval malformed_disk_def)
  have there: "existsSync malformed_disk scenario_fresh"
    by (simp add: fs_eval malformed_disk_def scenario_fresh_def)
  from run there show ?thesis by (intro conjI)
qed

theorem upgrade_leaks_on_malformed_manifest_witness:
  "snd (upgrade (gate_run malformed_disk False) gate_options start_world) = Threw SyntaxError
   \<and> Cleanup \<notin> set (trace (fst (upgrade (gate_run malformed_disk False) gate_options start_world)))
   \<and> existsSync
         (disk (fst (upgrade (gate_run malformed_disk False) gate_options start_world)))
         scenario_fresh"
  using upgrade_leaks_on_malformed_manifest by simp

end
